theory Spec2Isabelle
  imports Complex_Main
begin

section \<open>Configuration (config.py)\<close>

text \<open>
  The scheduled transmission times, the retry bound and the backoff schedule are the
  constants of \<^verbatim>\<open>config.py\<close>. Clock readings (\<^verbatim>\<open>time.monotonic()\<close>) and
  voltages are Python floats; they are modelled by the real number they denote.
\<close>

definition TRANSMISSION_TIMES :: "(nat \<times> nat) list" where
  "TRANSMISSION_TIMES = [(5, 0), (13, 0)]"

definition MAX_RETRY_ATTEMPTS :: int where
  "MAX_RETRY_ATTEMPTS = 3"

definition RETRY_BACKOFF_MINUTES :: "nat list" where
  "RETRY_BACKOFF_MINUTES = [5, 15, 30]"

definition LOW_BATTERY_THRESHOLD :: real where
  "LOW_BATTERY_THRESHOLD = 3.2"

definition PRESSURE_SENSOR_VREF :: real where
  "PRESSURE_SENSOR_VREF = 3.3"

section \<open>Text formatting\<close>

text \<open>
  Decimal rendering of a natural number, and the format \<^verbatim>\<open>{n:02d}\<close> that pads to
  two digits. Texts the program builds itself are ASCII and are modelled as \<^typ>\<open>string\<close>.
\<close>

definition digit_char :: "nat \<Rightarrow> char" where
  "digit_char d = ''0123456789'' ! d"

fun str_nat :: "nat \<Rightarrow> string" where
  "str_nat n = (if n < 10 then [digit_char n] else str_nat (n div 10) @ [digit_char (n mod 10)])"

declare str_nat.simps [simp del]

definition str_int :: "int \<Rightarrow> string" where
  "str_int i = (if i < 0 then CHR ''-'' # str_nat (nat (- i)) else str_nat (nat i))"

definition fmt02d :: "nat \<Rightarrow> string" where
  "fmt02d n = (if n < 10 then CHR ''0'' # str_nat n else str_nat n)"

definition slot_name :: "nat \<times> nat \<Rightarrow> string" where
  "slot_name hm = fmt02d (fst hm) @ '':'' @ fmt02d (snd hm)"

section \<open>Persisted state (storage_manager.py)\<close>

record attempt_record =
  time_slot :: string
  timestamp :: real
  success :: bool
  error :: string

record wake_state =
  last_successful_transmissions :: "string \<rightharpoonup> real"
  failed_attempts :: "attempt_record list"
  last_wake_time :: real
  total_wake_cycles :: nat
  sensor_calibration_offset :: real
  battery_low_count :: nat
  system_errors :: "string list"

definition default_state :: wake_state where
  "default_state = \<lparr> last_successful_transmissions = Map.empty, failed_attempts = [],
     last_wake_time = 0, total_wake_cycles = 0, sensor_calibration_offset = 0,
     battery_low_count = 0, system_errors = [] \<rparr>"

text \<open>
  \<^verbatim>\<open>xs[-10:]\<close>: the last ten elements, or all of them when there are fewer.
\<close>

definition last_ten :: "'a list \<Rightarrow> 'a list" where
  "last_ten xs = drop (length xs - 10) xs"

text \<open>
  \<^verbatim>\<open>record_transmission_attempt(state, time_slot, success, error_message)\<close>. The
  reading of \<^verbatim>\<open>time.monotonic()\<close> taken on entry is the argument \<open>now\<close>.
\<close>

definition record_transmission_attempt ::
  "wake_state \<Rightarrow> string \<Rightarrow> bool \<Rightarrow> string \<Rightarrow> real \<Rightarrow> wake_state" where
  "record_transmission_attempt state slot ok error_message now =
     (let attempt = \<lparr> time_slot = slot, timestamp = now, success = ok, error = error_message \<rparr>
      in if ok then
           state \<lparr> last_successful_transmissions := (last_successful_transmissions state)(slot \<mapsto> now),
                   failed_attempts := filter (\<lambda>a. time_slot a \<noteq> slot) (failed_attempts state) \<rparr>
         else
           (let appended = failed_attempts state @ [attempt]
            in state \<lparr> failed_attempts :=
                 (if length appended > 10 then last_ten appended else appended) \<rparr>))"

text \<open>Recording a run of failed attempts, one call each, oldest first.\<close>

fun record_failures :: "wake_state \<Rightarrow> (string \<times> string \<times> real) list \<Rightarrow> wake_state" where
  "record_failures state [] = state"
| "record_failures state ((slot, msg, now) # rest) =
     record_failures (record_transmission_attempt state slot False msg now) rest"

definition failure_record :: "string \<times> string \<times> real \<Rightarrow> attempt_record" where
  "failure_record f = (case f of (slot, msg, now) \<Rightarrow>
     \<lparr> time_slot = slot, timestamp = now, success = False, error = msg \<rparr>)"

section \<open>Transmission window (time_manager.py)\<close>

text \<open>
  \<^verbatim>\<open>is_transmission_time(tolerance_minutes)\<close>. The Pacific time read from the clock is
  the pair \<open>(hour, minute)\<close>; the loop runs over the configured times and returns at the
  first one within the tolerance.
\<close>

fun transmission_time_loop :: "nat \<times> nat \<Rightarrow> int \<Rightarrow> (nat \<times> nat) list \<Rightarrow> bool \<times> (nat \<times> nat) option" where
  "transmission_time_loop pacific tolerance [] = (False, None)"
| "transmission_time_loop pacific tolerance (target # rest) =
     (let current_total_minutes = int (fst pacific) * 60 + int (snd pacific);
          target_total_minutes = int (fst target) * 60 + int (snd target);
          minutes_diff = \<bar>current_total_minutes - target_total_minutes\<bar>;
          minutes_diff' = (if minutes_diff > 12 * 60 then 24 * 60 - minutes_diff else minutes_diff)
      in if minutes_diff' \<le> tolerance then (True, Some target)
         else transmission_time_loop pacific tolerance rest)"

definition is_transmission_time :: "nat \<times> nat \<Rightarrow> int \<Rightarrow> bool \<times> (nat \<times> nat) option" where
  "is_transmission_time pacific tolerance_minutes =
     transmission_time_loop pacific tolerance_minutes TRANSMISSION_TIMES"

text \<open>Whether one given slot is within the tolerance of the current Pacific time.\<close>

definition within_window :: "nat \<times> nat \<Rightarrow> int \<Rightarrow> nat \<times> nat \<Rightarrow> bool" where
  "within_window pacific tolerance target = fst (transmission_time_loop pacific tolerance [target])"

section \<open>Pending resolver (storage_manager.py)\<close>

record pending_entry =
  pending_slot :: string
  retry_count :: nat
  last_attempt :: "attempt_record option"

text \<open>
  \<^verbatim>\<open>get_pending_transmissions(state, current_time_manager)\<close>: \<open>current_time\<close> is the
  reading of \<^verbatim>\<open>time.monotonic()\<close> taken on entry, \<open>pacific\<close> the Pacific time the
  time manager reads. A slot without an entry in the success map takes the default \<open>0\<close>
  of \<^verbatim>\<open>.get(time_slot, 0)\<close>.
\<close>

definition recent_failures :: "wake_state \<Rightarrow> real \<Rightarrow> string \<Rightarrow> attempt_record list" where
  "recent_failures state current_time slot =
     filter (\<lambda>a. time_slot a = slot \<and> current_time - timestamp a < 6 * 3600) (failed_attempts state)"

fun pending_loop :: "wake_state \<Rightarrow> real \<Rightarrow> nat \<times> nat \<Rightarrow> (nat \<times> nat) list \<Rightarrow> pending_entry list" where
  "pending_loop state current_time pacific [] = []"
| "pending_loop state current_time pacific (hm # rest) =
     (let slot = slot_name hm;
          last_success = (case last_successful_transmissions state slot of None \<Rightarrow> 0 | Some t \<Rightarrow> t)
      in if current_time - last_success < 12 * 3600 then pending_loop state current_time pacific rest
         else
           (let recent = recent_failures state current_time slot
            in if recent \<noteq> [] then
                 \<lparr> pending_slot = slot, retry_count = length recent, last_attempt = Some (last recent) \<rparr>
                   # pending_loop state current_time pacific rest
               else if fst (is_transmission_time pacific 5) then
                 \<lparr> pending_slot = slot, retry_count = 0, last_attempt = None \<rparr>
                   # pending_loop state current_time pacific rest
               else pending_loop state current_time pacific rest))"

definition get_pending_transmissions :: "wake_state \<Rightarrow> real \<Rightarrow> nat \<times> nat \<Rightarrow> pending_entry list" where
  "get_pending_transmissions state current_time pacific =
     pending_loop state current_time pacific TRANSMISSION_TIMES"

section \<open>Satellite modem (satellite.py)\<close>

text \<open>
  A message is a Python \<^verbatim>\<open>str\<close>: a sequence of code points. \<^verbatim>\<open>len(message.encode())\<close>
  counts the bytes of its UTF-8 encoding, while the slice \<^verbatim>\<open>message[:337]\<close> counts
  code points, so the model keeps both measures apart.
\<close>

type_synonym pystr = "nat list"

definition utf8_width :: "nat \<Rightarrow> nat" where
  "utf8_width cp = (if cp < 128 then 1 else if cp < 2048 then 2 else if cp < 65536 then 3 else 4)"

definition encoded_length :: "pystr \<Rightarrow> nat" where
  "encoded_length message = sum_list (map utf8_width message)"

definition marker :: pystr where
  "marker = [46, 46, 46]"

text \<open>
  What the link answers. \<^verbatim>\<open>rockblock.signal_quality\<close> gives an integer, \<^verbatim>\<open>None\<close> or an
  exception; \<^verbatim>\<open>rockblock.text_message\<close> gives a true or a false value or an exception;
  the constructor \<^verbatim>\<open>RockBlock(uart)\<close> may raise. One \<open>link_env\<close> holds the answers
  the link gives during one attempt. It also holds the text \<^verbatim>\<open>str(e)\<close> of the
  \<^verbatim>\<open>TypeError\<close> that the interpreter raises when it compares \<^verbatim>\<open>None\<close> with \<open>1\<close>: the
  program copies that text into its error message, and the wording is the interpreter's.
\<close>

datatype sq_read = SQ int | SQNone | SQRaises string

datatype send_read = SendOk | SendFail | SendRaises string

datatype ctor_read = CtorOk | CtorRaises string

record link_env =
  ctor :: ctor_read
  test_sq :: sq_read
  loop_sq :: sq_read
  send :: send_read
  none_lt_text :: string

record modem =
  rockblock :: bool
  is_initialized :: bool
  sleep_pin :: bool

text \<open>
  What the modem does, in order: the two debug lines that announce an attempt and a
  backoff wait, every \<^verbatim>\<open>time.sleep\<close> (in seconds), every signal query, every
  construction of the link object and every message handed to the link together with
  the link's answer.
\<close>

datatype link_event =
    AttemptNotice nat
  | BackoffNotice nat
  | Sleeps nat
  | SignalQuery
  | NewRockBlock
  | TextMessage pystr send_read

definition test_communication :: "modem \<Rightarrow> link_env \<Rightarrow> bool \<times> link_event list" where
  "test_communication self hw =
     (if \<not> rockblock self then (False, [])
      else (case test_sq hw of
              SQ q \<Rightarrow> (True, [SignalQuery])
            | SQNone \<Rightarrow> (False, [SignalQuery])
            | SQRaises e \<Rightarrow> (False, [SignalQuery])))"

definition initialize :: "modem \<Rightarrow> link_env \<Rightarrow> bool \<times> modem \<times> link_event list" where
  "initialize self hw =
     (let woken = self \<lparr> sleep_pin := False \<rparr>;
          waits = [Sleeps 1, Sleeps 2]
      in case ctor hw of
           CtorRaises e \<Rightarrow> (False, woken, waits @ [NewRockBlock])
         | CtorOk \<Rightarrow>
             (let built = woken \<lparr> rockblock := True \<rparr>
              in case test_communication built hw of
                   (True, evs) \<Rightarrow> (True, built \<lparr> is_initialized := True \<rparr>, waits @ [NewRockBlock] @ evs)
                 | (False, evs) \<Rightarrow> (False, built, waits @ [NewRockBlock] @ evs)))"

text \<open>
  \<^verbatim>\<open>get_signal_quality\<close>: \<open>-1\<close> when the modem cannot be initialised or the query
  raises; otherwise what the link answers, which may be \<^verbatim>\<open>None\<close>.
\<close>

definition read_signal :: "modem \<Rightarrow> link_env \<Rightarrow> int option \<times> modem \<times> link_event list" where
  "read_signal self hw =
     (case loop_sq hw of
        SQ q \<Rightarrow> (Some q, self, [SignalQuery])
      | SQNone \<Rightarrow> (None, self, [SignalQuery])
      | SQRaises e \<Rightarrow> (Some (- 1), self, [SignalQuery]))"

definition get_signal_quality :: "modem \<Rightarrow> link_env \<Rightarrow> int option \<times> modem \<times> link_event list" where
  "get_signal_quality self hw =
     (if \<not> is_initialized self then
        (case initialize self hw of
           (False, self', evs) \<Rightarrow> (Some (- 1), self', evs)
         | (True, self', evs) \<Rightarrow>
             (case read_signal self' hw of (q, self'', evs') \<Rightarrow> (q, self'', evs @ evs')))
      else read_signal self hw)"

text \<open>
  One pass through the body of the attempt loop, up to the backoff. The pass ends with
  a confirmed send (\<open>Confirmed\<close>), with \<^verbatim>\<open>continue\<close> (\<open>Skipped\<close>, which jumps over
  the backoff) or by falling through to the backoff (\<open>Failed\<close>); the last two carry
  the new \<^verbatim>\<open>last_error\<close>. Comparing \<^verbatim>\<open>None < 1\<close> raises a \<^verbatim>\<open>TypeError\<close>, which
  the \<^verbatim>\<open>except\<close> clause of the loop body catches.
\<close>

datatype attempt_outcome = Confirmed | Skipped string | Failed string

definition after_init :: "modem \<Rightarrow> pystr \<Rightarrow> link_env \<Rightarrow> attempt_outcome \<times> modem \<times> link_event list" where
  "after_init self message hw =
     (case get_signal_quality self hw of (q, self', evs) \<Rightarrow>
        (case q of
           None \<Rightarrow> (Failed (''Exception during send: '' @ none_lt_text hw), self', evs)
         | Some signal_quality \<Rightarrow>
             if signal_quality < 1 then
               (Skipped (''Poor signal quality: '' @ str_int signal_quality), self', evs @ [Sleeps 30])
             else
               (case send hw of
                  SendOk \<Rightarrow> (Confirmed, self', evs @ [TextMessage message SendOk])
                | SendFail \<Rightarrow>
                    (Failed ''RockBlock reported send failure'', self', evs @ [TextMessage message SendFail])
                | SendRaises e \<Rightarrow>
                    (Failed (''Exception during send: '' @ e), self',
                     evs @ [TextMessage message (SendRaises e)]))))"

definition attempt_body :: "modem \<Rightarrow> pystr \<Rightarrow> link_env \<Rightarrow> attempt_outcome \<times> modem \<times> link_event list" where
  "attempt_body self message hw =
     (if \<not> is_initialized self then
        (case initialize self hw of
           (False, self', evs) \<Rightarrow> (Skipped ''Failed to initialize RockBlock'', self', evs)
         | (True, self', evs) \<Rightarrow>
             (case after_init self' message hw of (out, self'', evs') \<Rightarrow> (out, self'', evs @ evs')))
      else after_init self message hw)"

definition backoff_minutes :: "nat \<Rightarrow> nat" where
  "backoff_minutes attempt = RETRY_BACKOFF_MINUTES ! min attempt (length RETRY_BACKOFF_MINUTES - 1)"

definition backoff :: "int \<Rightarrow> nat \<Rightarrow> link_event list" where
  "backoff max_attempts attempt =
     (if int attempt < max_attempts - 1
      then [BackoffNotice (backoff_minutes attempt), Sleeps (backoff_minutes attempt * 60)]
      else [])"

text \<open>
  The loop \<^verbatim>\<open>for attempt in range(max_attempts)\<close>, over the list of attempt numbers
  still to run; \<open>env attempt\<close> is what the link answers during that attempt.
\<close>

fun attempt_loop ::
  "modem \<Rightarrow> pystr \<Rightarrow> int \<Rightarrow> (nat \<Rightarrow> link_env) \<Rightarrow> string \<Rightarrow> nat list
     \<Rightarrow> (bool \<times> int \<times> string) \<times> modem \<times> link_event list" where
  "attempt_loop self message max_attempts env last_error [] =
     ((False, max_attempts, last_error), self, [])"
| "attempt_loop self message max_attempts env last_error (attempt # rest) =
     (case attempt_body self message (env attempt) of
        (Confirmed, self', evs) \<Rightarrow>
          ((True, int attempt + 1, ''''), self', AttemptNotice (attempt + 1) # evs)
      | (Skipped err, self', evs) \<Rightarrow>
          (case attempt_loop self' message max_attempts env err rest of
             (r, self'', evs') \<Rightarrow> (r, self'', AttemptNotice (attempt + 1) # evs @ evs'))
      | (Failed err, self', evs) \<Rightarrow>
          (case attempt_loop self' message max_attempts env err rest of
             (r, self'', evs') \<Rightarrow>
               (r, self'', AttemptNotice (attempt + 1) # evs @ backoff max_attempts attempt @ evs')))"

definition truncate_message :: "pystr \<Rightarrow> pystr" where
  "truncate_message message =
     (if encoded_length message > 340 then take 337 message @ marker else message)"

definition send_message ::
  "modem \<Rightarrow> pystr \<Rightarrow> int \<Rightarrow> (nat \<Rightarrow> link_env)
     \<Rightarrow> (bool \<times> int \<times> string) \<times> modem \<times> link_event list" where
  "send_message self message max_attempts env =
     (if message = [] then ((False, 0, ''Empty message''), self, [])
      else attempt_loop self (truncate_message message) max_attempts env '''' [0..<nat max_attempts])"

text \<open>
  \<^verbatim>\<open>send_data_reading\<close>. The timestamp and the formatted message (or the exception
  that reading the clock or formatting raises) are an input; the signal quality of the
  result is read after the send, from the link's answers \<open>final\<close>.
\<close>

datatype formatted = Formatted string pystr | FormatRaises string

record transmission_result =
  tx_success :: bool
  tx_attempts :: int
  tx_error :: string
  tx_message :: pystr
  tx_timestamp :: string
  tx_signal_quality :: "int option"

definition send_data_reading ::
  "modem \<Rightarrow> formatted \<Rightarrow> (nat \<Rightarrow> link_env) \<Rightarrow> link_env
     \<Rightarrow> transmission_result \<times> modem \<times> link_event list" where
  "send_data_reading self fmt env final =
     (case fmt of
        FormatRaises e \<Rightarrow>
          (\<lparr> tx_success = False, tx_attempts = 0,
             tx_error = ''Exception formatting/sending data: '' @ e,
             tx_message = [], tx_timestamp = '''', tx_signal_quality = Some (- 1) \<rparr>, self, [])
      | Formatted stamp message \<Rightarrow>
          (case send_message self message MAX_RETRY_ATTEMPTS env of
             ((ok, attempts, err), self', evs) \<Rightarrow>
               (case get_signal_quality self' final of
                  (q, self'', evs') \<Rightarrow>
                    (\<lparr> tx_success = ok, tx_attempts = attempts, tx_error = err,
                       tx_message = message, tx_timestamp = stamp, tx_signal_quality = q \<rparr>,
                     self'', evs @ evs'))))"

section \<open>Power manager (power_manager.py)\<close>

record power_manager =
  done_pin :: bool
  battery_monitor :: bool
  wake_start_time :: real
  max_wake_duration :: real
  battery_voltage :: real
  is_low_battery :: bool

text \<open>
  \<^verbatim>\<open>PowerManager()\<close>: \<open>monitor\<close> says whether the battery monitor pin could be
  opened, \<open>now\<close> is the clock reading taken as the start of the wake cycle.
\<close>

definition new_power_manager :: "bool \<Rightarrow> real \<Rightarrow> power_manager" where
  "new_power_manager monitor now =
     \<lparr> done_pin = False, battery_monitor = monitor, wake_start_time = now,
       max_wake_duration = 300, battery_voltage = 0, is_low_battery = False \<rparr>"

text \<open>
  What \<^verbatim>\<open>battery_monitor.value\<close> gives: the raw count of the converter, an integer
  from \<open>0\<close> to \<open>65535\<close>, or an exception. The voltage is computed from the count as
  the source does, \<^verbatim>\<open>(raw_value / 65535.0) * PRESSURE_SENSOR_VREF\<close> and then
  \<^verbatim>\<open>* 2.0\<close>, over the reals.
\<close>

datatype battery_read = Count nat | ReadRaises

definition read_battery_voltage :: "power_manager \<Rightarrow> battery_read \<Rightarrow> real \<times> power_manager" where
  "read_battery_voltage self rd =
     (if \<not> battery_monitor self then (0, self)
      else (case rd of
              ReadRaises \<Rightarrow> (0, self)
            | Count raw_value \<Rightarrow>
                (let voltage = (real raw_value / 65535) * PRESSURE_SENSOR_VREF;
                     voltage = voltage * 2
                 in (voltage, self \<lparr> battery_voltage := voltage,
                                      is_low_battery := voltage < LOW_BATTERY_THRESHOLD \<rparr>))))"

text \<open>
  \<^verbatim>\<open>check_battery_status\<close>. The entry \<^verbatim>\<open>"percentage"\<close> of the status, which the
  source rounds from a floating-point quotient and which only the printed reports read,
  is left out.
\<close>

datatype recommendation = normal | monitor_closely | conserve_power | emergency_shutdown

record battery_status =
  voltage :: real
  is_low :: bool
  recommendation :: recommendation

definition check_battery_status :: "power_manager \<Rightarrow> battery_read \<Rightarrow> battery_status \<times> power_manager" where
  "check_battery_status self rd =
     (case read_battery_voltage self rd of (v, self') \<Rightarrow>
        (\<lparr> voltage = v, is_low = is_low_battery self',
           recommendation =
             (if is_low_battery self' then
                (if v < 3.0 then emergency_shutdown
                 else if v < 3.2 then conserve_power
                 else monitor_closely)
              else normal) \<rparr>, self'))"

definition should_skip_transmission :: "battery_status \<Rightarrow> bool \<times> string" where
  "should_skip_transmission status =
     (if recommendation status = emergency_shutdown
        then (True, ''Critical low battery - emergency shutdown'')
      else if recommendation status = conserve_power
        then (True, ''Low battery - conserving power'')
      else (False, ''''))"

definition get_wake_duration :: "power_manager \<Rightarrow> real \<Rightarrow> real" where
  "get_wake_duration self now = now - wake_start_time self"

text \<open>
  \<^verbatim>\<open>should_force_sleep\<close>, at the clock reading \<open>now\<close>; the text that goes with the
  flag is left out.
\<close>

definition should_force_sleep :: "power_manager \<Rightarrow> real \<Rightarrow> bool" where
  "should_force_sleep self now = (get_wake_duration self now > max_wake_duration self)"

section \<open>Wake cycle (main.py)\<close>

text \<open>
  What one wake cycle does, in order. \<open>DoneSignal\<close> is one pulse on the pin of the
  external timer (\<^verbatim>\<open>signal_done\<close>); \<open>Link\<close> wraps what the modem does.
\<close>

datatype cycle_event =
    Blink nat
  | PowerManagerInit
  | BatteryRead
  | DoneSignal
  | StorageInit bool
  | StateLoaded
  | TimeInit
  | SensorInit
  | SensorRead
  | Link link_event
  | ModemSleep
  | SkipNotice string
  | ReadingLogged
  | AttemptRecorded
  | StateSaved wake_state
  | ErrorPrinted
  | ErrorLogged
  | Cleanup
  | PowerDownWarning

text \<open>The statements of the cycle at which the model lets an exception be raised.\<close>

datatype fault_point =
    AtStartupBlink
  | AtPowerInit
  | AtLoadState
  | AtTimeInit
  | AtSensorInit
  | AtTxTimeCheck
  | AtPendingCheck
  | AtSensorRead
  | AtModemCtor
  | AtDiagnostics
  | AtErrorBlink
  | AtFinalBlink

text \<open>
  Everything outside the program that one wake cycle meets: the battery, the storage,
  the clocks, the link, the statements that raise, and whether the external timer cuts
  the power when it sees the pulse.
\<close>

record cycle_env =
  monitor_available :: bool
  battery :: battery_read
  raises :: "fault_point \<Rightarrow> bool"
  sd_mounts :: bool
  stored :: wake_state
  clock_at_boot :: real
  clock_at_resolve :: real
  clock_at_record :: real
  pacific_time :: "nat \<times> nat"
  sat_init :: link_env
  link_answers :: "nat \<Rightarrow> link_env"
  final_link :: link_env
  formatted_message :: formatted
  timer_cuts_power :: bool

definition signal_done :: "cycle_event list" where
  "signal_done = [DoneSignal]"

text \<open>
  \<^verbatim>\<open>handle_emergency_shutdown(None, ...)\<close>: without a storage manager nothing is logged,
  and \<^verbatim>\<open>signal_done\<close> catches its own exceptions, so the handler pulses once.
\<close>

definition handle_emergency_shutdown :: "cycle_event list" where
  "handle_emergency_shutdown = signal_done"

definition fresh_modem :: modem where
  "fresh_modem = \<lparr> rockblock = False, is_initialized = False, sleep_pin = False \<rparr>"

definition failed_result :: "string \<Rightarrow> transmission_result" where
  "failed_result e = \<lparr> tx_success = False, tx_attempts = 0, tx_error = e, tx_message = [],
     tx_timestamp = '''', tx_signal_quality = Some (- 1) \<rparr>"

text \<open>
  \<^verbatim>\<open>perform_transmission\<close>: main passes \<^verbatim>\<open>satellite = None\<close>, so a modem is made here.
  Every exception is caught and turned into a failed result; the modem, once made, is
  put to sleep on every path.
\<close>

definition perform_transmission :: "cycle_env \<Rightarrow> transmission_result \<times> cycle_event list" where
  "perform_transmission env =
     (if raises env AtModemCtor then
        (failed_result ''Exception during transmission: modem'', [])
      else
        (case initialize fresh_modem (sat_init env) of
           (False, sat, evs) \<Rightarrow>
             (failed_result ''Failed to initialize satellite modem'', map Link evs @ [ModemSleep])
         | (True, sat, evs) \<Rightarrow>
             if raises env AtSensorRead then
               (failed_result ''Exception during transmission: sensor'', map Link evs @ [ModemSleep])
             else
               (case send_data_reading sat (formatted_message env) (link_answers env) (final_link env) of
                  (result, sat', evs') \<Rightarrow>
                    (result, map Link evs @ [SensorRead] @ map Link evs'
                       @ [Blink (if tx_success result then 5 else 1), ModemSleep]))))"

text \<open>
  \<^verbatim>\<open>print_system_diagnostics\<close> reads the battery and the sensor again and catches its
  own exceptions.
\<close>

definition print_system_diagnostics :: "cycle_env \<Rightarrow> cycle_event list" where
  "print_system_diagnostics env = (if raises env AtDiagnostics then [] else [BatteryRead, SensorRead])"

datatype flow = Completed | Returned | Raised

text \<open>Lines 141 to 146: save the state when the card is mounted, print the diagnostics.\<close>

definition save_and_report :: "cycle_env \<Rightarrow> wake_state \<Rightarrow> cycle_event list" where
  "save_and_report env state =
     (if sd_mounts env then [StateSaved state] else []) @ print_system_diagnostics env"

text \<open>Lines 86 to 139: decide whether to transmit, transmit or only log a reading.\<close>

definition transmit_or_log :: "cycle_env \<Rightarrow> battery_status \<Rightarrow> wake_state \<Rightarrow> flow \<times> cycle_event list" where
  "transmit_or_log env status state =
     (if raises env AtTxTimeCheck then (Raised, [])
      else if sd_mounts env \<and> raises env AtPendingCheck then (Raised, [])
      else
        (let tx = is_transmission_time (pacific_time env) 5;
             pending_transmissions =
               (if sd_mounts env
                then get_pending_transmissions state (clock_at_resolve env) (pacific_time env) else []);
             should_transmit = (fst tx \<or> length pending_transmissions > 0)
         in if should_transmit then
              (case should_skip_transmission status of
                 (True, skip_reason) \<Rightarrow>
                   (Completed,
                    [SkipNotice skip_reason] @ (if sd_mounts env then [ErrorLogged] else [])
                      @ save_and_report env state)
               | (False, skip_reason) \<Rightarrow>
                   (case perform_transmission env of (result, evs) \<Rightarrow>
                      if \<not> sd_mounts env then (Completed, evs @ save_and_report env state)
                      else if raises env AtSensorRead then (Raised, evs)
                      else
                        (case snd tx of
                           None \<Rightarrow>
                             (Completed, evs @ [SensorRead, ReadingLogged] @ save_and_report env state)
                         | Some tx_slot \<Rightarrow>
                             (Completed,
                              evs @ [SensorRead, ReadingLogged, AttemptRecorded]
                                @ save_and_report env
                                    (record_transmission_attempt state (slot_name tx_slot)
                                       (tx_success result) (tx_error result) (clock_at_record env))))))
            else if raises env AtSensorRead then (Raised, [])
            else
              (Completed,
               [SensorRead] @ (if sd_mounts env then [ReadingLogged] else [])
                 @ save_and_report env state)))"

text \<open>Lines 62 to 84: storage, state, clock and sensor.\<close>

definition load_and_init :: "cycle_env \<Rightarrow> battery_status \<Rightarrow> flow \<times> cycle_event list" where
  "load_and_init env status =
     (if sd_mounts env \<and> raises env AtLoadState then (Raised, [StorageInit True])
      else
        (let loaded = (if sd_mounts env then stored env else default_state);
             state = loaded \<lparr> total_wake_cycles := total_wake_cycles loaded + 1,
                              last_wake_time := clock_at_boot env \<rparr>;
             evs = [StorageInit (sd_mounts env), StateLoaded]
         in if raises env AtTimeInit then (Raised, evs)
            else if raises env AtSensorInit then (Raised, evs @ [TimeInit])
            else (case transmit_or_log env status state of
                    (fl, evs') \<Rightarrow> (fl, evs @ [TimeInit, SensorInit] @ evs'))))"

text \<open>
  The body of the \<^verbatim>\<open>try\<close> block of \<^verbatim>\<open>main\<close>. The result says how the body ended,
  whether the power manager was made, whether a mounted storage manager exists, and
  what was done.
\<close>

definition cycle_body :: "cycle_env \<Rightarrow> flow \<times> bool \<times> bool \<times> cycle_event list" where
  "cycle_body env =
     (if raises env AtStartupBlink then (Raised, False, False, [])
      else if raises env AtPowerInit then (Raised, False, False, [Blink 3])
      else
        (case check_battery_status
                (new_power_manager (monitor_available env) (clock_at_boot env)) (battery env) of
           (status, power_mgr) \<Rightarrow>
             if recommendation status = emergency_shutdown then
               (Returned, True, False,
                [Blink 3, PowerManagerInit, BatteryRead] @ handle_emergency_shutdown)
             else
               (case load_and_init env status of
                  (fl, evs) \<Rightarrow>
                    (fl, True, sd_mounts env, [Blink 3, PowerManagerInit, BatteryRead] @ evs))))"

text \<open>The \<^verbatim>\<open>except\<close> clause: runs when the body raised.\<close>

definition error_handler :: "cycle_env \<Rightarrow> bool \<Rightarrow> cycle_event list" where
  "error_handler env storage_ready =
     (if raises env AtErrorBlink then [ErrorPrinted]
      else [ErrorPrinted, Blink 10] @ (if storage_ready then [ErrorLogged] else []))"

text \<open>
  The \<^verbatim>\<open>finally\<close> clause: \<open>has_power_mgr\<close> is the test \<^verbatim>\<open>if power_mgr\<close>. An exception
  in the final blink leaves the clause before the pulse.
\<close>

definition finally_block :: "cycle_env \<Rightarrow> bool \<Rightarrow> cycle_event list" where
  "finally_block env has_power_mgr =
     (if has_power_mgr then [BatteryRead] else []) @ [Cleanup]
       @ (if raises env AtFinalBlink then []
          else [Blink 2] @ (if has_power_mgr then signal_done else []) @ [PowerDownWarning])"

text \<open>\<^verbatim>\<open>main\<close>, run to its end: the external timer is taken not to cut the power.\<close>

definition main :: "cycle_env \<Rightarrow> cycle_event list" where
  "main env =
     (case cycle_body env of
        (fl, has_power_mgr, storage_ready, evs) \<Rightarrow>
          evs @ (if fl = Raised then error_handler env storage_ready else [])
            @ finally_block env has_power_mgr)"

text \<open>
  What is seen of a cycle: when the external timer cuts the power at the first pulse,
  nothing after that pulse happens.
\<close>

fun is_done :: "cycle_event \<Rightarrow> bool" where
  "is_done DoneSignal = True"
| "is_done e = False"

fun until_power_cut :: "cycle_event list \<Rightarrow> cycle_event list" where
  "until_power_cut [] = []"
| "until_power_cut (e # es) = (if is_done e then [e] else e # until_power_cut es)"

definition run_cycle :: "cycle_env \<Rightarrow> cycle_event list" where
  "run_cycle env = (if timer_cuts_power env then until_power_cut (main env) else main env)"

definition done_signals :: "cycle_event list \<Rightarrow> nat" where
  "done_signals evs = length (filter is_done evs)"

section \<open>Notions used to state the properties\<close>

text \<open>Counting the messages handed to the link in a modem run.\<close>

fun is_send :: "link_event \<Rightarrow> bool" where
  "is_send (TextMessage m r) = True"
| "is_send e = False"

definition sends :: "link_event list \<Rightarrow> nat" where
  "sends evs = length (filter is_send evs)"

text \<open>
  The clock reading at which each wait starts, when the run is entered at \<open>now\<close> and
  only the waits take time (so every real start is no earlier).
\<close>

fun sleep_starts :: "real \<Rightarrow> link_event list \<Rightarrow> (real \<times> nat) list" where
  "sleep_starts now [] = []"
| "sleep_starts now (Sleeps s # es) = (now, s) # sleep_starts (now + real s) es"
| "sleep_starts now (e # es) = sleep_starts now es"

text \<open>
  What the link answers during one attempt, once the modem is initialised: the send is
  confirmed, the send is reached and reported as failed, or the signal is found poor.
\<close>

definition link_confirms :: "link_env \<Rightarrow> bool" where
  "link_confirms hw =
     (case loop_sq hw of SQ q \<Rightarrow> 1 \<le> q \<and> send hw = SendOk | SQNone \<Rightarrow> False | SQRaises e \<Rightarrow> False)"

definition send_fails :: "link_env \<Rightarrow> bool" where
  "send_fails hw =
     (case loop_sq hw of SQ q \<Rightarrow> 1 \<le> q \<and> send hw = SendFail | SQNone \<Rightarrow> False | SQRaises e \<Rightarrow> False)"

definition poor_signal :: "link_env \<Rightarrow> bool" where
  "poor_signal hw = (case loop_sq hw of SQ q \<Rightarrow> q < 1 | SQNone \<Rightarrow> False | SQRaises e \<Rightarrow> True)"

text \<open>
  The error text that an attempt leaves in \<^verbatim>\<open>last_error\<close> once the modem is
  initialised.
\<close>

definition attempt_error :: "link_env \<Rightarrow> string" where
  "attempt_error hw =
     (case loop_sq hw of
        SQ q \<Rightarrow>
          if q < 1 then ''Poor signal quality: '' @ str_int q
          else (case send hw of
                  SendOk \<Rightarrow> ''''
                | SendFail \<Rightarrow> ''RockBlock reported send failure''
                | SendRaises e \<Rightarrow> ''Exception during send: '' @ e)
      | SQNone \<Rightarrow> ''Exception during send: '' @ none_lt_text hw
      | SQRaises e \<Rightarrow> ''Poor signal quality: '' @ str_int (- 1))"

text \<open>
  A modem that is not yet initialised tries to initialise at the start of every
  attempt. With the answers \<open>hw\<close> that succeeds when the link object can be made and
  the test query gives a number.
\<close>

definition init_succeeds :: "link_env \<Rightarrow> bool" where
  "init_succeeds hw =
     (case ctor hw of
        CtorOk \<Rightarrow> (case test_sq hw of SQ q \<Rightarrow> True | SQNone \<Rightarrow> False | SQRaises e \<Rightarrow> False)
      | CtorRaises e \<Rightarrow> False)"

definition init_events :: "link_env \<Rightarrow> link_event list" where
  "init_events hw =
     [Sleeps 1, Sleeps 2, NewRockBlock]
       @ (case ctor hw of CtorOk \<Rightarrow> [SignalQuery] | CtorRaises e \<Rightarrow> [])"

text \<open>
  \<open>ready_before self env i\<close>: the modem that started the run as \<open>self\<close> is initialised
  when attempt \<open>i\<close> begins, given that the attempts before \<open>i\<close> all ran. So
  \<open>ready_before self env (Suc i)\<close> says that attempt \<open>i\<close> gets past its initialisation.
\<close>

fun ready_before :: "modem \<Rightarrow> (nat \<Rightarrow> link_env) \<Rightarrow> nat \<Rightarrow> bool" where
  "ready_before self env 0 = is_initialized self"
| "ready_before self env (Suc i) = (ready_before self env i \<or> init_succeeds (env i))"

definition confirms_at :: "modem \<Rightarrow> (nat \<Rightarrow> link_env) \<Rightarrow> nat \<Rightarrow> bool" where
  "confirms_at self env i = (ready_before self env (Suc i) \<and> link_confirms (env i))"

definition error_at :: "modem \<Rightarrow> (nat \<Rightarrow> link_env) \<Rightarrow> nat \<Rightarrow> string" where
  "error_at self env i =
     (if ready_before self env (Suc i) then attempt_error (env i)
      else ''Failed to initialize RockBlock'')"

text \<open>
  What \<^verbatim>\<open>get_signal_quality\<close> does and gives when the result of
  \<^verbatim>\<open>send_data_reading\<close> is built, for a modem that is initialised or not (\<open>ready\<close>)
  at that moment.
\<close>

definition final_events :: "bool \<Rightarrow> link_env \<Rightarrow> link_event list" where
  "final_events ready final =
     (if ready then [SignalQuery]
      else init_events final @ (if init_succeeds final then [SignalQuery] else []))"

definition final_quality :: "bool \<Rightarrow> link_env \<Rightarrow> int option" where
  "final_quality ready final =
     (if ready \<or> init_succeeds final then
        (case loop_sq final of SQ q \<Rightarrow> Some q | SQNone \<Rightarrow> None | SQRaises e \<Rightarrow> Some (- 1))
      else Some (- 1))"

text \<open>
  The run of the attempt loop described attempt by attempt, in words rather than by
  the loop.
  The work of attempt \<open>i\<close> is the initialisation, when the modem still needs one, then
  the signal query and, when the signal is good, the message handed to the link. The
  wait that follows depends on how the attempt ended: none when the initialisation
  failed or the send was confirmed; thirty seconds when the signal was poor; otherwise
  the backoff of 5 minutes after the first attempt, 15 after the second and 30 after
  every later one, except after the last attempt of the run, which is followed by
  nothing.
\<close>

definition schedule_minutes :: "nat \<Rightarrow> nat" where
  "schedule_minutes i = (if i = 0 then 5 else if i = 1 then 15 else 30)"

definition attempt_work :: "modem \<Rightarrow> pystr \<Rightarrow> (nat \<Rightarrow> link_env) \<Rightarrow> nat \<Rightarrow> link_event list" where
  "attempt_work self message env i =
     (if ready_before self env i then [] else init_events (env i))
       @ (if ready_before self env (Suc i) then
            SignalQuery #
              (case loop_sq (env i) of
                 SQ q \<Rightarrow> if q < 1 then [] else [TextMessage message (send (env i))]
               | SQNone \<Rightarrow> []
               | SQRaises e \<Rightarrow> [])
          else [])"

definition wait_after :: "modem \<Rightarrow> int \<Rightarrow> (nat \<Rightarrow> link_env) \<Rightarrow> nat \<Rightarrow> link_event list" where
  "wait_after self max_attempts env i =
     (if \<not> ready_before self env (Suc i) then []
      else if link_confirms (env i) then []
      else if poor_signal (env i) then [Sleeps 30]
      else if int i < max_attempts - 1
        then [BackoffNotice (schedule_minutes i), Sleeps (schedule_minutes i * 60)]
      else [])"

definition attempt_events ::
  "modem \<Rightarrow> pystr \<Rightarrow> int \<Rightarrow> (nat \<Rightarrow> link_env) \<Rightarrow> nat \<Rightarrow> link_event list" where
  "attempt_events self message max_attempts env i =
     AttemptNotice (i + 1) # attempt_work self message env i @ wait_after self max_attempts env i"

text \<open>Sensor and transmission work among the events of a cycle.\<close>

fun is_sensor_or_link :: "cycle_event \<Rightarrow> bool" where
  "is_sensor_or_link SensorInit = True"
| "is_sensor_or_link SensorRead = True"
| "is_sensor_or_link (Link e) = True"
| "is_sensor_or_link ModemSleep = True"
| "is_sensor_or_link e = False"

text \<open>Whether the first battery check of the cycle asks for an emergency shutdown.\<close>

definition emergency :: "cycle_env \<Rightarrow> bool" where
  "emergency env =
     (recommendation (fst (check_battery_status
        (new_power_manager (monitor_available env) (clock_at_boot env)) (battery env)))
      = emergency_shutdown)"

section \<open>Concrete inputs\<close>

definition failed_morning :: wake_state where
  "failed_morning = default_state \<lparr> failed_attempts :=
     [\<lparr> time_slot = ''05:00'', timestamp = 100, success = False,
        error = ''RockBlock reported send failure'' \<rparr>] \<rparr>"

definition eleven_failures :: "(string \<times> string \<times> real) list" where
  "eleven_failures = map (\<lambda>n. (''05:00'', ''RockBlock reported send failure'', real n)) [0..<11]"

definition ready_modem :: modem where
  "ready_modem = \<lparr> rockblock = True, is_initialized = True, sleep_pin = False \<rparr>"

definition good_link :: link_env where
  "good_link = \<lparr> ctor = CtorOk, test_sq = SQ 3, loop_sq = SQ 3, send = SendOk,
       none_lt_text = ''unsupported types for __lt__'' \<rparr>"

definition failing_link :: link_env where
  "failing_link = \<lparr> ctor = CtorOk, test_sq = SQ 3, loop_sq = SQ 3, send = SendFail,
       none_lt_text = ''unsupported types for __lt__'' \<rparr>"

definition weak_link :: link_env where
  "weak_link = \<lparr> ctor = CtorOk, test_sq = SQ 0, loop_sq = SQ 0, send = SendOk,
       none_lt_text = ''unsupported types for __lt__'' \<rparr>"

definition weak_then_good :: "nat \<Rightarrow> link_env" where
  "weak_then_good i = (if i = 0 then weak_link else good_link)"

definition fail_then_good :: "nat \<Rightarrow> link_env" where
  "fail_then_good i = (if i = 0 then failing_link else good_link)"

definition dead_link :: link_env where
  "dead_link = \<lparr> ctor = CtorRaises ''no modem'', test_sq = SQNone, loop_sq = SQNone,
       send = SendFail, none_lt_text = ''unsupported types for __lt__'' \<rparr>"

definition always_failing :: "nat \<Rightarrow> link_env" where
  "always_failing i = failing_link"

definition always_good :: "nat \<Rightarrow> link_env" where
  "always_good i = good_link"

definition always_dead :: "nat \<Rightarrow> link_env" where
  "always_dead i = dead_link"

definition short_message :: pystr where
  "short_message = [87, 68, 58, 49]"

definition accented_message :: pystr where
  "accented_message = replicate 200 233"

definition quiet_cycle :: cycle_env where
  "quiet_cycle = \<lparr> monitor_available = True, battery = Count 36739, raises = (\<lambda>p. False),
     sd_mounts = True, stored = default_state, clock_at_boot = 1, clock_at_resolve = 5,
     clock_at_record = 30, pacific_time = (9, 0), sat_init = good_link,
     link_answers = (\<lambda>i. good_link), final_link = good_link,
     formatted_message = Formatted ''20260101_090000'' short_message,
     timer_cuts_power = False \<rparr>"

definition emergency_cycle :: cycle_env where
  "emergency_cycle = quiet_cycle \<lparr> battery := Count 28795 \<rparr>"

definition power_init_fault :: "fault_point \<Rightarrow> bool" where
  "power_init_fault p = (case p of AtPowerInit \<Rightarrow> True | _ \<Rightarrow> False)"

definition sensor_fault :: "fault_point \<Rightarrow> bool" where
  "sensor_fault p = (case p of AtSensorInit \<Rightarrow> True | _ \<Rightarrow> False)"

definition no_power_manager_cycle :: cycle_env where
  "no_power_manager_cycle = quiet_cycle \<lparr> raises := power_init_fault \<rparr>"

definition sensor_fault_cycle :: cycle_env where
  "sensor_fault_cycle = quiet_cycle \<lparr> raises := sensor_fault \<rparr>"

definition cut_emergency_cycle :: cycle_env where
  "cut_emergency_cycle = emergency_cycle \<lparr> timer_cuts_power := True \<rparr>"

section \<open>Recorded attempts and the pending resolver\<close>

lemma slot_name_morning: "slot_name (5, 0) = ''05:00''"
  by code_simp

lemma slot_name_afternoon: "slot_name (13, 0) = ''13:00''"
  by code_simp

lemma last_ten_absorb: "last_ten (last_ten xs @ ys) = last_ten (xs @ ys)"
proof (cases "length xs \<le> 10")
  case True
  then show ?thesis by (simp add: last_ten_def)
next
  case False
  then have len: "length (drop (length xs - 10) xs) = 10" by simp
  have "last_ten (xs @ ys) = drop (length ys + (length xs - 10)) (xs @ ys)"
    using False by (simp add: last_ten_def add.commute)
  also have "\<dots> = drop (length ys) (drop (length xs - 10) (xs @ ys))"
    by (simp only: drop_drop)
  also have "\<dots> = drop (length ys) (drop (length xs - 10) xs @ ys)"
    by simp
  also have "\<dots> = last_ten (last_ten xs @ ys)"
    using len by (simp add: last_ten_def)
  finally show ?thesis by simp
qed

lemma last_ten_of_long_suffix: "10 \<le> length ys \<Longrightarrow> last_ten (xs @ ys) = last_ten ys"
  by (simp add: last_ten_def)

lemma failed_attempts_after_failure:
  "failed_attempts (record_transmission_attempt state slot False msg now) =
     last_ten (failed_attempts state @ [failure_record (slot, msg, now)])"
  by (auto simp: record_transmission_attempt_def Let_def failure_record_def last_ten_def)

lemma failed_attempts_after_failures:
  "fs \<noteq> [] \<Longrightarrow>
     failed_attempts (record_failures state fs) = last_ten (failed_attempts state @ map failure_record fs)"
proof (induction fs arbitrary: state)
  case Nil
  then show ?case by simp
next
  case (Cons f fs)
  obtain slot msg now where f: "f = (slot, msg, now)" by (cases f) auto
  show ?case
  proof (cases "fs = []")
    case True
    then show ?thesis using f by (simp add: failed_attempts_after_failure)
  next
    case False
    from Cons.IH [OF False]
    have "failed_attempts (record_failures (record_transmission_attempt state slot False msg now) fs)
            = last_ten (failed_attempts (record_transmission_attempt state slot False msg now)
                @ map failure_record fs)" .
    then show ?thesis using f by (simp add: failed_attempts_after_failure last_ten_absorb)
  qed
qed

text \<open>
  Claim C8. Recording a success for slot \<open>S\<close> leaves no failed attempt of \<open>S\<close> in the
  state (the failures of the other slots stay) and sets the success entry of \<open>S\<close> to
  the time of the call. Recording a failure appends one record and keeps the ten most
  recent records at most; after more than ten recorded failures exactly the ten most
  recent ones remain, whatever the state was before.
\<close>

theorem record_attempt_invariant:
  "failed_attempts (record_transmission_attempt state S True msg now)
       = filter (\<lambda>a. time_slot a \<noteq> S) (failed_attempts state)
   \<and> filter (\<lambda>a. time_slot a = S) (failed_attempts (record_transmission_attempt state S True msg now)) = []
   \<and> last_successful_transmissions (record_transmission_attempt state S True msg now) S = Some now
   \<and> failed_attempts (record_transmission_attempt state S False msg now)
       = last_ten (failed_attempts state
           @ [\<lparr> time_slot = S, timestamp = now, success = False, error = msg \<rparr>])
   \<and> length (failed_attempts (record_transmission_attempt state S False msg now)) \<le> 10
   \<and> (10 < length fs \<longrightarrow>
        failed_attempts (record_failures state fs) = last_ten (map failure_record fs)
        \<and> length (failed_attempts (record_failures state fs)) = 10)"
proof -
  have purge: "failed_attempts (record_transmission_attempt state S True msg now)
       = filter (\<lambda>a. time_slot a \<noteq> S) (failed_attempts state)"
    by (simp add: record_transmission_attempt_def)
  have none: "filter (\<lambda>a. time_slot a = S)
       (failed_attempts (record_transmission_attempt state S True msg now)) = []"
    unfolding purge by (induction "failed_attempts state") auto
  have entry: "last_successful_transmissions (record_transmission_attempt state S True msg now) S = Some now"
    by (simp add: record_transmission_attempt_def)
  have app: "failed_attempts (record_transmission_attempt state S False msg now)
       = last_ten (failed_attempts state
           @ [\<lparr> time_slot = S, timestamp = now, success = False, error = msg \<rparr>])"
    by (simp add: failed_attempts_after_failure failure_record_def)
  have bound: "length (failed_attempts (record_transmission_attempt state S False msg now)) \<le> 10"
    unfolding app by (simp add: last_ten_def)
  have many: "10 < length fs \<longrightarrow>
        failed_attempts (record_failures state fs) = last_ten (map failure_record fs)
        \<and> length (failed_attempts (record_failures state fs)) = 10"
  proof
    assume long: "10 < length fs"
    then have ne: "fs \<noteq> []" by auto
    have eq: "failed_attempts (record_failures state fs) = last_ten (map failure_record fs)"
      using long by (simp add: failed_attempts_after_failures [OF ne] last_ten_of_long_suffix)
    moreover have "length (last_ten (map failure_record fs)) = 10"
      using long by (simp add: last_ten_def)
    ultimately show "failed_attempts (record_failures state fs) = last_ten (map failure_record fs)
        \<and> length (failed_attempts (record_failures state fs)) = 10" by simp
  qed
  from purge none entry app bound many show ?thesis by blast
qed

theorem record_attempt_invariant_witness:
  "10 < length eleven_failures
   \<and> map timestamp (failed_attempts (record_failures failed_morning eleven_failures))
       = [1, 2, 3, 4, 5, 6, 7, 8, 9, 10]
   \<and> failed_attempts (record_transmission_attempt failed_morning ''05:00'' True [] 7) = []"
  using record_attempt_invariant [of failed_morning "''05:00''" "[]" 7 eleven_failures]
  by (simp add: eleven_failures_def failed_morning_def default_state_def last_ten_def
        failure_record_def upt_rec)

lemma pending_loop_skips_unrecorded:
  assumes "last_successful_transmissions state S = None" and "current_time < 12 * 3600"
  shows "S \<notin> pending_slot ` set (pending_loop state current_time pacific slots)"
  using assms by (induction slots) (auto simp: Let_def)

text \<open>
  Claim C3. The resolver measures both windows against the monotonic clock reading
  and takes \<open>0\<close> as the last success of a slot that has no entry. So for every state
  with no recorded success for slot \<open>S\<close>, and every clock reading below twelve hours,
  \<open>S\<close> is not in the pending list, whatever failed attempts are recorded and whatever
  the Pacific time is. The timestamps that \<open>record_transmission_attempt\<close> stores, for a
  success and for a failure, are that same monotonic reading.
\<close>

theorem unrecorded_slot_never_pending:
  "(last_successful_transmissions state S = None \<longrightarrow> current_time < 12 * 3600 \<longrightarrow>
      S \<notin> pending_slot ` set (get_pending_transmissions state current_time pacific))
   \<and> last_successful_transmissions (record_transmission_attempt state S True msg now) S = Some now
   \<and> timestamp (last (failed_attempts (record_transmission_attempt state S False msg now))) = now"
  by (simp add: get_pending_transmissions_def pending_loop_skips_unrecorded
        record_transmission_attempt_def Let_def last_ten_def)

theorem unrecorded_slot_never_pending_witness:
  "last_successful_transmissions failed_morning ''05:00'' = None
   \<and> (200::real) < 12 * 3600
   \<and> recent_failures failed_morning 200 ''05:00'' \<noteq> []
   \<and> fst (is_transmission_time (5, 0) 5)
   \<and> ''05:00'' \<notin> pending_slot ` set (get_pending_transmissions failed_morning 200 (5, 0))"
  using unrecorded_slot_never_pending [of failed_morning "''05:00''" 200 "(5, 0)"]
  by (simp add: failed_morning_def default_state_def recent_failures_def
        is_transmission_time_def TRANSMISSION_TIMES_def)

text \<open>
  What the resolver does for a configured slot, as the code has it: a slot whose last
  success (or the default \<open>0\<close>) is less than twelve hours before the clock reading is
  left out; otherwise failed attempts of the slot less than six hours old make it
  pending with their number and the last of them; otherwise the slot is marked newly
  pending exactly when some configured slot is within five minutes of the Pacific time.
\<close>

lemma fresh_slot_not_pending:
  assumes "current_time - (case last_successful_transmissions state S of None \<Rightarrow> 0 | Some t \<Rightarrow> t)
             < 12 * 3600"
  shows "S \<notin> pending_slot ` set (pending_loop state current_time pacific slots)"
  using assms by (induction slots) (auto simp: Let_def)

lemma new_entry_needs_window:
  "\<lparr> pending_slot = S, retry_count = n, last_attempt = None \<rparr>
      \<in> set (pending_loop state current_time pacific slots)
   \<Longrightarrow> fst (is_transmission_time pacific 5)"
  by (induction slots) (auto simp: Let_def split: if_splits)

lemma retry_entry_in_loop:
  assumes "hm \<in> set slots"
    and "\<not> current_time - (case last_successful_transmissions state (slot_name hm) of
                               None \<Rightarrow> 0 | Some t \<Rightarrow> t) < 12 * 3600"
    and "recent_failures state current_time (slot_name hm) \<noteq> []"
  shows "\<lparr> pending_slot = slot_name hm,
           retry_count = length (recent_failures state current_time (slot_name hm)),
           last_attempt = Some (last (recent_failures state current_time (slot_name hm))) \<rparr>
           \<in> set (pending_loop state current_time pacific slots)"
  using assms by (induction slots) (auto simp: Let_def)

lemma new_entry_in_loop:
  assumes "hm \<in> set slots"
    and "\<not> current_time - (case last_successful_transmissions state (slot_name hm) of
                               None \<Rightarrow> 0 | Some t \<Rightarrow> t) < 12 * 3600"
    and "recent_failures state current_time (slot_name hm) = []"
    and "fst (is_transmission_time pacific 5)"
  shows "\<lparr> pending_slot = slot_name hm, retry_count = 0, last_attempt = None \<rparr>
           \<in> set (pending_loop state current_time pacific slots)"
  using assms by (induction slots) (auto simp: Let_def)

lemma pending_with_recorded_success:
  assumes "hm \<in> set TRANSMISSION_TIMES"
    and "last_successful_transmissions state (slot_name hm) = Some t"
  shows "(current_time - t < 12 * 3600 \<longrightarrow>
            slot_name hm \<notin> pending_slot ` set (get_pending_transmissions state current_time pacific))
       \<and> (\<not> current_time - t < 12 * 3600 \<longrightarrow> recent_failures state current_time (slot_name hm) \<noteq> [] \<longrightarrow>
            \<lparr> pending_slot = slot_name hm,
              retry_count = length (recent_failures state current_time (slot_name hm)),
              last_attempt = Some (last (recent_failures state current_time (slot_name hm))) \<rparr>
              \<in> set (get_pending_transmissions state current_time pacific))"
  using assms fresh_slot_not_pending [of current_time state "slot_name hm" pacific TRANSMISSION_TIMES]
    retry_entry_in_loop [of hm TRANSMISSION_TIMES current_time state pacific]
  by (simp add: get_pending_transmissions_def)

lemma newly_pending_iff_any_slot_matches:
  assumes "hm \<in> set TRANSMISSION_TIMES"
    and "\<not> current_time - (case last_successful_transmissions state (slot_name hm) of
                               None \<Rightarrow> 0 | Some t \<Rightarrow> t) < 12 * 3600"
    and "recent_failures state current_time (slot_name hm) = []"
  shows "(\<lparr> pending_slot = slot_name hm, retry_count = 0, last_attempt = None \<rparr>
            \<in> set (get_pending_transmissions state current_time pacific))
         = fst (is_transmission_time pacific 5)"
  using new_entry_in_loop [OF assms] new_entry_needs_window
  unfolding get_pending_transmissions_def by blast

text \<open>
  Claim C9, at an input where the code departs from it. The state has no recorded
  success for the slot 05:00 and one failed attempt for it, recorded at clock reading
  100; the resolver runs at clock reading 700, ten minutes later, so the failure lies
  well inside the six-hour retry window and the claim makes the slot pending as a retry
  with a count of one. The resolver returns no pending slot: the missing success entry
  counts as a success at clock reading 0, less than twelve hours before.
\<close>

theorem retry_lost_without_recorded_success:
  "last_successful_transmissions failed_morning ''05:00'' = None
   \<and> recent_failures failed_morning 700 ''05:00'' = failed_attempts failed_morning
   \<and> length (failed_attempts failed_morning) = 1
   \<and> get_pending_transmissions failed_morning 700 (9, 0) = []"
  by (simp add: failed_morning_def default_state_def recent_failures_def
        get_pending_transmissions_def TRANSMISSION_TIMES_def slot_name_morning slot_name_afternoon)

text \<open>
  Claim C4, at an input where the code departs from it. At 05:02 Pacific time the slot
  13:00 is not within five minutes of the clock, and it has neither a recent success
  nor a failed attempt; the claim leaves it out of the pending list. The resolver asks
  whether any configured slot is within the window and drops the slot that matched, so
  it marks 13:00 newly pending together with 05:00.
\<close>

theorem other_slot_marked_pending:
  "\<not> within_window (5, 2) 5 (13, 0)
   \<and> get_pending_transmissions default_state 50000 (5, 2) =
       [\<lparr> pending_slot = ''05:00'', retry_count = 0, last_attempt = None \<rparr>,
        \<lparr> pending_slot = ''13:00'', retry_count = 0, last_attempt = None \<rparr>]"
  by (simp add: within_window_def default_state_def recent_failures_def
        get_pending_transmissions_def is_transmission_time_def TRANSMISSION_TIMES_def
        slot_name_morning slot_name_afternoon)

section \<open>The attempt loop of the modem\<close>

lemma sends_append [simp]: "sends (xs @ ys) = sends xs + sends ys"
  by (simp add: sends_def)

lemma attempt_body_initialized:
  assumes "is_initialized self"
  shows "attempt_body self message hw =
     (case loop_sq hw of
        SQ q \<Rightarrow>
          if q < 1 then (Skipped (''Poor signal quality: '' @ str_int q), self, [SignalQuery, Sleeps 30])
          else (case send hw of
                  SendOk \<Rightarrow> (Confirmed, self, [SignalQuery, TextMessage message SendOk])
                | SendFail \<Rightarrow> (Failed ''RockBlock reported send failure'', self,
                               [SignalQuery, TextMessage message SendFail])
                | SendRaises e \<Rightarrow> (Failed (''Exception during send: '' @ e), self,
                               [SignalQuery, TextMessage message (SendRaises e)]))
      | SQNone \<Rightarrow> (Failed (''Exception during send: '' @ none_lt_text hw), self, [SignalQuery])
      | SQRaises e \<Rightarrow>
          (Skipped (''Poor signal quality: '' @ str_int (- 1)), self, [SignalQuery, Sleeps 30]))"
  using assms
  by (simp add: attempt_body_def after_init_def get_signal_quality_def read_signal_def
        split: sq_read.splits send_read.splits)

lemma attempt_body_confirms:
  "is_initialized self \<Longrightarrow> link_confirms hw \<Longrightarrow>
     attempt_body self message hw = (Confirmed, self, [SignalQuery, TextMessage message SendOk])"
  by (auto simp: attempt_body_initialized link_confirms_def split: sq_read.splits)

lemma attempt_body_send_fails:
  "is_initialized self \<Longrightarrow> send_fails hw \<Longrightarrow>
     attempt_body self message hw =
       (Failed ''RockBlock reported send failure'', self, [SignalQuery, TextMessage message SendFail])"
  by (auto simp: attempt_body_initialized send_fails_def split: sq_read.splits)

lemma sends_initialize: "sends (snd (snd (initialize self hw))) = 0"
  by (auto simp: initialize_def test_communication_def sends_def Let_def split: ctor_read.splits sq_read.splits)

lemma sends_get_signal_quality: "sends (snd (snd (get_signal_quality self hw))) = 0"
  using sends_initialize [of self hw]
  by (auto simp: get_signal_quality_def read_signal_def sends_def split: prod.splits bool.splits sq_read.splits)

lemma sends_after_init: "sends (snd (snd (after_init self message hw))) \<le> 1"
  using sends_get_signal_quality [of self hw]
  by (auto simp: after_init_def sends_def split: prod.splits option.splits send_read.splits)

lemma sends_attempt_body: "sends (snd (snd (attempt_body self message hw))) \<le> 1"
proof (cases "is_initialized self")
  case True
  then show ?thesis using sends_after_init [of self message hw] by (simp add: attempt_body_def)
next
  case False
  obtain ok self' evs where i: "initialize self hw = (ok, self', evs)" by (cases "initialize self hw") auto
  have e: "sends evs = 0" using sends_initialize [of self hw] i by simp
  show ?thesis
  proof (cases ok)
    case True
    obtain out s2 evs' where a: "after_init self' message hw = (out, s2, evs')" by (cases "after_init self' message hw") auto
    have "sends evs' \<le> 1" using sends_after_init [of self' message hw] a by simp
    then show ?thesis using False i True a e by (simp add: attempt_body_def)
  next
    case F: False
    then show ?thesis using False i e by (simp add: attempt_body_def)
  qed
qed

lemma sends_backoff [simp]: "sends (backoff max_attempts attempt) = 0"
  by (simp add: backoff_def sends_def)

lemma sends_attempt_loop:
  "sends (snd (snd (attempt_loop self message max_attempts env last_error idxs))) \<le> length idxs"
proof (induction idxs arbitrary: self last_error)
  case Nil
  then show ?case by (simp add: sends_def)
next
  case (Cons attempt rest)
  obtain out self' evs where b: "attempt_body self message (env attempt) = (out, self', evs)"
    by (cases "attempt_body self message (env attempt)") auto
  have one: "sends evs \<le> 1" using sends_attempt_body [of self message "env attempt"] b by simp
  show ?case
  proof (cases out)
    case Confirmed
    then show ?thesis using b one by (simp add: sends_def)
  next
    case (Skipped err)
    obtain r s2 evs' where l: "attempt_loop self' message max_attempts env err rest = (r, s2, evs')"
      by (cases "attempt_loop self' message max_attempts env err rest") auto
    have "sends evs' \<le> length rest" using Cons.IH [of self' err] l by simp
    then show ?thesis using b Skipped l one by (simp add: sends_def)
  next
    case (Failed err)
    obtain r s2 evs' where l: "attempt_loop self' message max_attempts env err rest = (r, s2, evs')"
      by (cases "attempt_loop self' message max_attempts env err rest") auto
    have "sends evs' \<le> length rest" using Cons.IH [of self' err] l by simp
    moreover have "sends (backoff max_attempts attempt) = 0" by simp
    ultimately show ?thesis using b Failed l one unfolding sends_def by simp
  qed
qed

lemma sends_send_message:
  "sends (snd (snd (send_message self message max_attempts env))) \<le> nat max_attempts"
  using sends_attempt_loop [of self "truncate_message message" max_attempts env "''''" "[0..<nat max_attempts]"]
  by (simp add: send_message_def sends_def)

lemma three_attempts: "[0..<nat MAX_RETRY_ATTEMPTS] = [0, 1, 2]"
  by (simp add: MAX_RETRY_ATTEMPTS_def upt_rec)


text \<open>
  The backoff read from the configured table, at the attempt number held at the last
  entry, is 5, 15 and then 30 minutes.
\<close>

lemma backoff_minutes_schedule: "backoff_minutes i = schedule_minutes i"
proof -
  consider "i = 0" | "i = 1" | "2 \<le> i" by linarith
  then show ?thesis
  proof cases
    case 1
    then show ?thesis by (simp add: backoff_minutes_def schedule_minutes_def RETRY_BACKOFF_MINUTES_def)
  next
    case 2
    then show ?thesis by (simp add: backoff_minutes_def schedule_minutes_def RETRY_BACKOFF_MINUTES_def)
  next
    case 3
    then have "min i 2 = 2" by simp
    then show ?thesis using 3
      by (simp add: backoff_minutes_def schedule_minutes_def RETRY_BACKOFF_MINUTES_def)
  qed
qed

text \<open>One pass through the loop body, for a modem in any state.\<close>

lemma initialize_general:
  assumes "initialize self hw = (ok, self', evs)"
  shows "ok = init_succeeds hw \<and> evs = init_events hw
       \<and> is_initialized self' = (is_initialized self \<or> init_succeeds hw)"
  using assms
  by (auto simp: initialize_def test_communication_def init_succeeds_def init_events_def Let_def
        split: ctor_read.splits sq_read.splits)

lemma after_init_general:
  assumes "is_initialized self" and "after_init self message hw = (out, self', evs)"
  shows "self' = self
       \<and> out = (if link_confirms hw then Confirmed
                else if poor_signal hw then Skipped (attempt_error hw)
                else Failed (attempt_error hw))
       \<and> evs = SignalQuery #
           (case loop_sq hw of
              SQ q \<Rightarrow> if q < 1 then [Sleeps 30] else [TextMessage message (send hw)]
            | SQNone \<Rightarrow> []
            | SQRaises e \<Rightarrow> [Sleeps 30])"
  using assms
  by (auto simp: after_init_def get_signal_quality_def read_signal_def link_confirms_def
        poor_signal_def attempt_error_def split: sq_read.splits send_read.splits)

lemma attempt_body_general:
  assumes "attempt_body self message hw = (out, self', evs)"
  shows "is_initialized self' = (is_initialized self \<or> init_succeeds hw)
       \<and> out = (if \<not> (is_initialized self \<or> init_succeeds hw)
                  then Skipped ''Failed to initialize RockBlock''
                else if link_confirms hw then Confirmed
                else if poor_signal hw then Skipped (attempt_error hw)
                else Failed (attempt_error hw))
       \<and> evs = (if is_initialized self then [] else init_events hw)
           @ (if is_initialized self \<or> init_succeeds hw then
                SignalQuery #
                  (case loop_sq hw of
                     SQ q \<Rightarrow> if q < 1 then [Sleeps 30] else [TextMessage message (send hw)]
                   | SQNone \<Rightarrow> []
                   | SQRaises e \<Rightarrow> [Sleeps 30])
              else [])"
proof (cases "is_initialized self")
  case True
  then have "after_init self message hw = (out, self', evs)"
    using assms by (simp add: attempt_body_def)
  from after_init_general [OF True this] show ?thesis using True by simp
next
  case False
  obtain ok s1 evs1 where i: "initialize self hw = (ok, s1, evs1)"
    by (cases "initialize self hw") auto
  note g = initialize_general [OF i]
  show ?thesis
  proof (cases ok)
    case no: False
    then show ?thesis using assms False i g by (auto simp: attempt_body_def)
  next
    case yes: True
    then have r: "is_initialized s1" using g by simp
    obtain out2 s2 evs2 where a: "after_init s1 message hw = (out2, s2, evs2)"
      by (cases "after_init s1 message hw") auto
    note h = after_init_general [OF r a]
    have "out = out2" "self' = s2" "evs = evs1 @ evs2"
      using assms False i yes a by (simp_all add: attempt_body_def)
    then show ?thesis using False g h yes r by simp
  qed
qed

text \<open>
  One step of the loop at attempt \<open>i\<close>, for the modem as the attempts before \<open>i\<close>
  left it.
\<close>

lemma loop_step:
  assumes "is_initialized cur = ready_before self env i"
    and "attempt_body cur message (env i) = (out, cur', evs)"
  shows "is_initialized cur' = ready_before self env (Suc i)"
    and "(out = Confirmed) = confirms_at self env i"
    and "out = Confirmed \<Longrightarrow> evs = attempt_work self message env i @ wait_after self max_attempts env i"
    and "out = Skipped err \<Longrightarrow>
           err = error_at self env i
           \<and> evs = attempt_work self message env i @ wait_after self max_attempts env i"
    and "out = Failed err \<Longrightarrow>
           err = error_at self env i
           \<and> evs @ backoff max_attempts i
               = attempt_work self message env i @ wait_after self max_attempts env i"
proof -
  note g = attempt_body_general [OF assms(2)]
  show "is_initialized cur' = ready_before self env (Suc i)"
    using g assms(1) by simp
  show "(out = Confirmed) = confirms_at self env i"
    using g assms(1) by (auto simp: confirms_at_def)
  show "out = Confirmed \<Longrightarrow> evs = attempt_work self message env i @ wait_after self max_attempts env i"
    using g assms(1)
    by (auto simp: attempt_work_def wait_after_def link_confirms_def poor_signal_def
          split: sq_read.splits if_splits)
  show "out = Skipped err \<Longrightarrow>
           err = error_at self env i
           \<and> evs = attempt_work self message env i @ wait_after self max_attempts env i"
    using g assms(1)
    by (auto simp: attempt_work_def wait_after_def error_at_def link_confirms_def poor_signal_def
          split: sq_read.splits if_splits)
  show "out = Failed err \<Longrightarrow>
           err = error_at self env i
           \<and> evs @ backoff max_attempts i
               = attempt_work self message env i @ wait_after self max_attempts env i"
    using g assms(1)
    by (auto simp: attempt_work_def wait_after_def error_at_def link_confirms_def poor_signal_def
          backoff_def backoff_minutes_schedule split: sq_read.splits if_splits)
qed

text \<open>The loop over the attempts \<open>n\<close> to \<open>m - 1\<close> when none of them is confirmed.\<close>

lemma loop_unconfirmed_trace:
  assumes "is_initialized cur = ready_before self env n" and "n \<le> m"
    and "\<forall>i. n \<le> i \<longrightarrow> i < m \<longrightarrow> \<not> confirms_at self env i"
  shows "\<exists>cur'. attempt_loop cur message max_attempts env err [n..<m] =
           ((False, max_attempts, if n < m then error_at self env (m - 1) else err), cur',
            concat (map (attempt_events self message max_attempts env) [n..<m]))
         \<and> is_initialized cur' = ready_before self env m"
  using assms
proof (induction "m - n" arbitrary: n cur err)
  case 0
  then have "n = m" by simp
  then show ?case using "0.prems"(1) by simp
next
  case (Suc d)
  then have lt: "n < m" by simp
  have list: "[n..<m] = n # [Suc n..<m]" using lt by (simp add: upt_conv_Cons)
  obtain out c1 evs where b: "attempt_body cur message (env n) = (out, c1, evs)"
    by (cases "attempt_body cur message (env n)") auto
  note st = loop_step [OF Suc.prems(1) b]
  have nc: "out \<noteq> Confirmed" using st(2) Suc.prems(3) lt by simp
  have d: "d = m - Suc n" using Suc.hyps(2) by simp
  have le: "Suc n \<le> m" using lt by simp
  have rest: "\<forall>i. Suc n \<le> i \<longrightarrow> i < m \<longrightarrow> \<not> confirms_at self env i"
    using Suc.prems(3) by simp
  have last: "\<not> Suc n < m \<Longrightarrow> m - Suc 0 = n" using lt by simp
  show ?case
  proof (cases out)
    case Confirmed
    then show ?thesis using nc by simp
  next
    case (Skipped e)
    from st(4) [where err = e and max_attempts = max_attempts] Skipped have e: "e = error_at self env n"
      and ev: "evs = attempt_work self message env n @ wait_after self max_attempts env n" by auto
    from Suc.hyps(1) [OF d st(1) le rest, of e]
    obtain c2 where l: "attempt_loop c1 message max_attempts env e [Suc n..<m] =
           ((False, max_attempts, if Suc n < m then error_at self env (m - 1) else e), c2,
            concat (map (attempt_events self message max_attempts env) [Suc n..<m]))"
      and i2: "is_initialized c2 = ready_before self env m" by blast
    show ?thesis
      using b Skipped l i2 e ev last lt
      by (simp add: list attempt_events_def)
  next
    case (Failed e)
    from st(5) [where err = e and max_attempts = max_attempts] Failed have e: "e = error_at self env n"
      and ev: "evs @ backoff max_attempts n
          = attempt_work self message env n @ wait_after self max_attempts env n" by auto
    from Suc.hyps(1) [OF d st(1) le rest, of e]
    obtain c2 where l: "attempt_loop c1 message max_attempts env e [Suc n..<m] =
           ((False, max_attempts, if Suc n < m then error_at self env (m - 1) else e), c2,
            concat (map (attempt_events self message max_attempts env) [Suc n..<m]))"
      and i2: "is_initialized c2 = ready_before self env m" by blast
    have ev': "evs @ backoff max_attempts n @ rest'
        = attempt_work self message env n @ wait_after self max_attempts env n @ rest'" for rest'
      using ev by (metis append_assoc)
    show ?thesis
      using b Failed l i2 e ev' last lt
      by (simp add: list attempt_events_def)
  qed
qed

text \<open>The loop from attempt \<open>n\<close> on when attempt \<open>k\<close> is the first one confirmed.\<close>

lemma loop_confirmed_trace:
  assumes "is_initialized cur = ready_before self env n" and "n \<le> k"
    and "\<forall>i. n \<le> i \<longrightarrow> i < k \<longrightarrow> \<not> confirms_at self env i"
    and "confirms_at self env k"
  shows "\<exists>cur'. attempt_loop cur message max_attempts env err ([n..<k] @ k # rest) =
           ((True, int k + 1, ''''), cur',
            concat (map (attempt_events self message max_attempts env) [n..<Suc k]))
         \<and> is_initialized cur'"
  using assms
proof (induction "k - n" arbitrary: n cur err)
  case 0
  then have nk: "n = k" by simp
  obtain out c1 evs where b: "attempt_body cur message (env k) = (out, c1, evs)"
    by (cases "attempt_body cur message (env k)") auto
  have init: "is_initialized cur = ready_before self env k" using "0.prems"(1) nk by simp
  note st = loop_step [OF init b]
  have c: "out = Confirmed" using st(2) "0.prems"(4) by simp
  have r: "is_initialized c1" using st(1) "0.prems"(4) by (simp add: confirms_at_def)
  show ?case using b c r st(3) [where max_attempts = max_attempts] nk by (simp add: attempt_events_def)
next
  case (Suc d)
  then have lt: "n < k" by simp
  have list: "[n..<k] = n # [Suc n..<k]" using lt by (simp add: upt_conv_Cons)
  have list': "[n..<Suc k] = n # [Suc n..<Suc k]" using lt by (simp add: upt_conv_Cons)
  obtain out c1 evs where b: "attempt_body cur message (env n) = (out, c1, evs)"
    by (cases "attempt_body cur message (env n)") auto
  note st = loop_step [OF Suc.prems(1) b]
  have nc: "out \<noteq> Confirmed" using st(2) Suc.prems(3) lt by simp
  have d: "d = k - Suc n" using Suc.hyps(2) by simp
  have le: "Suc n \<le> k" using lt by simp
  have before: "\<forall>i. Suc n \<le> i \<longrightarrow> i < k \<longrightarrow> \<not> confirms_at self env i"
    using Suc.prems(3) by simp
  show ?case
  proof (cases out)
    case Confirmed
    then show ?thesis using nc by simp
  next
    case (Skipped e)
    from st(4) [where err = e and max_attempts = max_attempts] Skipped
    have ev: "evs = attempt_work self message env n @ wait_after self max_attempts env n" by auto
    from Suc.hyps(1) [OF d st(1) le before Suc.prems(4), of e]
    obtain c2 where l: "attempt_loop c1 message max_attempts env e ([Suc n..<k] @ k # rest) =
           ((True, int k + 1, ''''), c2,
            concat (map (attempt_events self message max_attempts env) [Suc n..<Suc k]))"
      and i2: "is_initialized c2" by blast
    show ?thesis
      using b Skipped l i2 ev
      by (simp add: list list' attempt_events_def del: upt_Suc)
  next
    case (Failed e)
    from st(5) [where err = e and max_attempts = max_attempts] Failed
    have ev: "evs @ backoff max_attempts n
          = attempt_work self message env n @ wait_after self max_attempts env n" by auto
    from Suc.hyps(1) [OF d st(1) le before Suc.prems(4), of e]
    obtain c2 where l: "attempt_loop c1 message max_attempts env e ([Suc n..<k] @ k # rest) =
           ((True, int k + 1, ''''), c2,
            concat (map (attempt_events self message max_attempts env) [Suc n..<Suc k]))"
      and i2: "is_initialized c2" by blast
    have ev': "evs @ backoff max_attempts n @ rest'
        = attempt_work self message env n @ wait_after self max_attempts env n @ rest'" for rest'
      using ev by (metis append_assoc)
    show ?thesis
      using b Failed l i2 ev'
      by (simp add: list list' attempt_events_def del: upt_Suc)
  qed
qed

text \<open>The two lemmas at the level of \<^verbatim>\<open>send_message\<close>.\<close>

lemma send_message_unconfirmed:
  assumes "message \<noteq> []" and "\<forall>i<nat max_attempts. \<not> confirms_at self env i"
  shows "\<exists>cur'. send_message self message max_attempts env =
           ((False, max_attempts,
             if 0 < nat max_attempts then error_at self env (nat max_attempts - 1) else ''''), cur',
            concat (map (attempt_events self (truncate_message message) max_attempts env)
                      [0..<nat max_attempts]))
         \<and> is_initialized cur' = ready_before self env (nat max_attempts)"
proof -
  have i: "is_initialized self = ready_before self env 0" by simp
  have a: "\<forall>i. 0 \<le> i \<longrightarrow> i < nat max_attempts \<longrightarrow> \<not> confirms_at self env i"
    using assms(2) by simp
  from loop_unconfirmed_trace [OF i _ a, of "truncate_message message" max_attempts "''''"]
  show ?thesis using assms(1) by (simp add: send_message_def)
qed

lemma send_message_confirmed:
  assumes "message \<noteq> []" and "k < nat max_attempts"
    and "\<forall>i<k. \<not> confirms_at self env i" and "confirms_at self env k"
  shows "\<exists>cur'. send_message self message max_attempts env =
           ((True, int k + 1, ''''), cur',
            concat (map (attempt_events self (truncate_message message) max_attempts env)
                      [0..<Suc k]))
         \<and> is_initialized cur'"
proof -
  have i: "is_initialized self = ready_before self env 0" by simp
  have a: "\<forall>i. 0 \<le> i \<longrightarrow> i < k \<longrightarrow> \<not> confirms_at self env i"
    using assms(3) by simp
  have split: "[0..<nat max_attempts] = [0..<k] @ k # [Suc k..<nat max_attempts]"
    using assms(2) by (metis le_add1 le_add_same_cancel1 less_imp_add_positive upt_add_eq_append upt_conv_Cons)
  from loop_confirmed_trace [OF i _ a assms(4),
      of "truncate_message message" max_attempts "''''" "[Suc k..<nat max_attempts]"]
  obtain cur' where l: "attempt_loop self (truncate_message message) max_attempts env ''''
         ([0..<k] @ k # [Suc k..<nat max_attempts]) =
           ((True, int k + 1, ''''), cur',
            concat (map (attempt_events self (truncate_message message) max_attempts env)
                      [0..<Suc k]))" and r: "is_initialized cur'" by auto
  have "send_message self message max_attempts env
      = attempt_loop self (truncate_message message) max_attempts env ''''
          ([0..<k] @ k # [Suc k..<nat max_attempts])"
    using assms(1) by (simp only: send_message_def split if_False)
  then show ?thesis using l r by auto
qed

text \<open>The query that \<^verbatim>\<open>send_data_reading\<close> makes for the result, for a modem in any state.\<close>

lemma get_signal_quality_general:
  "fst (get_signal_quality cur final) = final_quality (is_initialized cur) final
   \<and> snd (snd (get_signal_quality cur final)) = final_events (is_initialized cur) final"
proof (cases "is_initialized cur")
  case True
  then show ?thesis
    by (simp add: get_signal_quality_def read_signal_def final_quality_def final_events_def
          split: sq_read.splits)
next
  case False
  obtain ok s1 evs1 where i: "initialize cur final = (ok, s1, evs1)"
    by (cases "initialize cur final") auto
  note g = initialize_general [OF i]
  show ?thesis
    using False i g
    by (cases ok)
       (auto simp: get_signal_quality_def read_signal_def final_quality_def final_events_def
          split: sq_read.splits)
qed

lemma ready_before_initialized: "is_initialized self \<Longrightarrow> ready_before self env i"
  by (induction i) simp_all

lemma sends_attempt_events:
  "sends (attempt_events self message max_attempts env i) =
     (if ready_before self env (Suc i)
         \<and> (case loop_sq (env i) of SQ q \<Rightarrow> 1 \<le> q | SQNone \<Rightarrow> False | SQRaises e \<Rightarrow> False)
      then 1 else 0)"
  by (auto simp: attempt_events_def attempt_work_def wait_after_def init_events_def sends_def
        split: sq_read.splits ctor_read.splits)

lemma send_fails_unconfirmed:
  "send_fails hw \<Longrightarrow>
     \<not> link_confirms hw \<and> attempt_error hw = ''RockBlock reported send failure''
     \<and> (case loop_sq hw of SQ q \<Rightarrow> 1 \<le> q | SQNone \<Rightarrow> False | SQRaises e \<Rightarrow> False)"
  by (auto simp: send_fails_def link_confirms_def attempt_error_def split: sq_read.splits)

lemma data_reading_of_run:
  assumes "send_message self message MAX_RETRY_ATTEMPTS env = ((ok, n, err), cur, evs)"
  shows "fst (send_data_reading self (Formatted stamp message) env final)
           = \<lparr> tx_success = ok, tx_attempts = n, tx_error = err, tx_message = message,
               tx_timestamp = stamp,
               tx_signal_quality = final_quality (is_initialized cur) final \<rparr>
       \<and> snd (snd (send_data_reading self (Formatted stamp message) env final))
           = evs @ final_events (is_initialized cur) final"
proof -
  obtain q s2 evs2 where g: "get_signal_quality cur final = (q, s2, evs2)"
    by (cases "get_signal_quality cur final") auto
  from get_signal_quality_general [of cur final] g
  have "q = final_quality (is_initialized cur) final"
    and "evs2 = final_events (is_initialized cur) final" by simp_all
  then show ?thesis using assms g by (simp add: send_data_reading_def)
qed

text \<open>
  Claim C7. With the default bound of three attempts, no run hands more than three
  messages to the link. For a message that is not empty and a modem in any state,
  initialised or still to be initialised by the attempts themselves: when no attempt
  ends with a confirmed send, the result is a failure after three attempts that carries
  the error text of the third (the last) attempt, and the result of
  \<open>send_data_reading\<close> carries the same outcome together with the signal quality given
  by the query that ends the run; when the link reports a failure on every send, that
  text is the send failure, or the initialisation failure when the modem never got
  initialised, and one message was handed over in every attempt that got past its
  initialisation; and when attempt \<open>i\<close> is the first whose send is confirmed, the
  result is a success with the count \<open>i + 1\<close> and an empty error text.
\<close>

theorem send_message_retry_exhaustion:
  "sends (snd (snd (send_message self message MAX_RETRY_ATTEMPTS env))) \<le> 3
   \<and> (message \<noteq> [] \<longrightarrow>
        ((\<forall>i<3. \<not> confirms_at self env i) \<longrightarrow>
           fst (send_message self message MAX_RETRY_ATTEMPTS env) = (False, 3, error_at self env 2)
           \<and> fst (send_data_reading self (Formatted stamp message) env final)
                = \<lparr> tx_success = False, tx_attempts = 3, tx_error = error_at self env 2,
                    tx_message = message, tx_timestamp = stamp,
                    tx_signal_quality = final_quality (ready_before self env 3) final \<rparr>
           \<and> snd (snd (send_data_reading self (Formatted stamp message) env final))
                = snd (snd (send_message self message MAX_RETRY_ATTEMPTS env))
                    @ final_events (ready_before self env 3) final)
        \<and> ((\<forall>i<3. send_fails (env i)) \<longrightarrow>
           fst (send_message self message MAX_RETRY_ATTEMPTS env)
             = (False, 3, if ready_before self env 3 then ''RockBlock reported send failure''
                          else ''Failed to initialize RockBlock'')
           \<and> sends (snd (snd (send_message self message MAX_RETRY_ATTEMPTS env)))
                = length (filter (\<lambda>i. ready_before self env (Suc i)) [0, 1, 2]))
        \<and> (\<forall>i<3. confirms_at self env i \<longrightarrow> (\<forall>j<i. \<not> confirms_at self env j) \<longrightarrow>
              fst (send_message self message MAX_RETRY_ATTEMPTS env) = (True, int i + 1, '''')
              \<and> fst (send_data_reading self (Formatted stamp message) env final)
                   = \<lparr> tx_success = True, tx_attempts = int i + 1, tx_error = '''',
                       tx_message = message, tx_timestamp = stamp,
                       tx_signal_quality = final_quality True final \<rparr>))"
proof -
  let ?run = "send_message self message MAX_RETRY_ATTEMPTS env"
  let ?data = "send_data_reading self (Formatted stamp message) env final"
  have three: "nat MAX_RETRY_ATTEMPTS = 3" by (simp add: MAX_RETRY_ATTEMPTS_def)
  have bound: "sends (snd (snd ?run)) \<le> 3"
    using sends_send_message [of self message MAX_RETRY_ATTEMPTS env] by (simp add: three)
  have rest: "?thesis" if ne: "message \<noteq> []"
  proof -
    have unconf: "\<exists>cur evs. ?run = ((False, 3, error_at self env 2), cur, evs)
           \<and> is_initialized cur = ready_before self env 3
           \<and> evs = concat (map (attempt_events self (truncate_message message) MAX_RETRY_ATTEMPTS env)
                       [0, 1, 2])"
      if all: "\<forall>i<3. \<not> confirms_at self env i"
    proof -
      have a: "\<forall>i<nat MAX_RETRY_ATTEMPTS. \<not> confirms_at self env i" using all by (simp add: three)
      from send_message_unconfirmed [OF ne a]
      show ?thesis by (simp add: three_attempts) (simp add: MAX_RETRY_ATTEMPTS_def)
    qed
    have first: "fst ?run = (False, 3, error_at self env 2)
           \<and> fst ?data = \<lparr> tx_success = False, tx_attempts = 3, tx_error = error_at self env 2,
                    tx_message = message, tx_timestamp = stamp,
                    tx_signal_quality = final_quality (ready_before self env 3) final \<rparr>
           \<and> snd (snd ?data) = snd (snd ?run) @ final_events (ready_before self env 3) final"
      if all: "\<forall>i<3. \<not> confirms_at self env i"
    proof -
      from unconf [OF all] obtain cur evs where
        r: "?run = ((False, 3, error_at self env 2), cur, evs)"
        and i: "is_initialized cur = ready_before self env 3" by blast
      from data_reading_of_run [OF r, of stamp final] show ?thesis using r i by simp
    qed
    have fails: "fst ?run = (False, 3, if ready_before self env 3 then ''RockBlock reported send failure''
                          else ''Failed to initialize RockBlock'')
           \<and> sends (snd (snd ?run)) = length (filter (\<lambda>i. ready_before self env (Suc i)) [0, 1, 2])"
      if all: "\<forall>i<3. send_fails (env i)"
    proof -
      have f: "send_fails (env 0)" "send_fails (env 1)" "send_fails (env 2)" using all by simp_all
      note u = f [THEN send_fails_unconfirmed]
      have nc: "\<forall>i<3. \<not> confirms_at self env i"
      proof (intro allI impI)
        fix i :: nat assume "i < 3"
        then have "send_fails (env i)" using all by simp
        then show "\<not> confirms_at self env i"
          using send_fails_unconfirmed by (simp add: confirms_at_def)
      qed
      from unconf [OF nc] obtain cur evs where
        r: "?run = ((False, 3, error_at self env 2), cur, evs)"
        and e: "evs = concat (map (attempt_events self (truncate_message message) MAX_RETRY_ATTEMPTS env)
                       [0, 1, 2])" by blast
      have err: "error_at self env 2 = (if ready_before self env 3 then ''RockBlock reported send failure''
                          else ''Failed to initialize RockBlock'')"
        using u(3) by (simp add: error_at_def numeral_3_eq_3)
      have cnt: "sends evs = length (filter (\<lambda>i. ready_before self env (Suc i)) [0, 1, 2])"
        unfolding e using u by (simp add: sends_attempt_events eval_nat_numeral)
      show ?thesis using r err cnt by simp
    qed
    have conf: "fst ?run = (True, int i + 1, '''')
           \<and> fst ?data = \<lparr> tx_success = True, tx_attempts = int i + 1, tx_error = '''',
                       tx_message = message, tx_timestamp = stamp,
                       tx_signal_quality = final_quality True final \<rparr>"
      if i: "i < 3" and c: "confirms_at self env i" and before: "\<forall>j<i. \<not> confirms_at self env j" for i
    proof -
      have lt: "i < nat MAX_RETRY_ATTEMPTS" using i by (simp add: three)
      from send_message_confirmed [OF ne lt before c] obtain cur evs where
        r: "?run = ((True, int i + 1, ''''), cur, evs)" and init: "is_initialized cur" by blast
      from data_reading_of_run [OF r, of stamp final] show ?thesis using r init by simp
    qed
    show ?thesis using bound first fails conf by blast
  qed
  show ?thesis using bound rest by blast
qed



theorem send_message_retry_exhaustion_witness:
  "short_message \<noteq> []
   \<and> send_fails (always_failing 0) \<and> send_fails (always_failing 1) \<and> send_fails (always_failing 2)
   \<and> fst (send_message ready_modem short_message MAX_RETRY_ATTEMPTS always_failing)
        = (False, 3, ''RockBlock reported send failure'')
   \<and> sends (snd (snd (send_message ready_modem short_message MAX_RETRY_ATTEMPTS always_failing))) = 3
   \<and> fst (send_message fresh_modem short_message MAX_RETRY_ATTEMPTS always_failing)
        = (False, 3, ''RockBlock reported send failure'')
   \<and> sends (snd (snd (send_message fresh_modem short_message MAX_RETRY_ATTEMPTS always_failing))) = 3
   \<and> fst (send_data_reading fresh_modem (Formatted ''t'' short_message) always_failing good_link)
        = \<lparr> tx_success = False, tx_attempts = 3, tx_error = ''RockBlock reported send failure'',
            tx_message = short_message, tx_timestamp = ''t'', tx_signal_quality = Some 3 \<rparr>
   \<and> \<not> confirms_at fresh_modem always_dead 0 \<and> \<not> confirms_at fresh_modem always_dead 1
   \<and> \<not> confirms_at fresh_modem always_dead 2
   \<and> fst (send_data_reading fresh_modem (Formatted ''t'' short_message) always_dead dead_link)
        = \<lparr> tx_success = False, tx_attempts = 3, tx_error = ''Failed to initialize RockBlock'',
            tx_message = short_message, tx_timestamp = ''t'', tx_signal_quality = Some (- 1) \<rparr>
   \<and> \<not> confirms_at ready_modem always_dead 0 \<and> \<not> confirms_at ready_modem always_dead 1
   \<and> \<not> confirms_at ready_modem always_dead 2
   \<and> fst (send_message ready_modem short_message MAX_RETRY_ATTEMPTS always_dead)
        = (False, 3, ''Exception during send: '' @ none_lt_text dead_link)
   \<and> confirms_at fresh_modem fail_then_good 1 \<and> \<not> confirms_at fresh_modem fail_then_good 0
   \<and> fst (send_message fresh_modem short_message MAX_RETRY_ATTEMPTS fail_then_good) = (True, 2, '''')"
proof -
  have ne: "short_message \<noteq> []" by (simp add: short_message_def)
  have f: "\<forall>i<3. send_fails (always_failing i)"
    by (simp add: always_failing_def failing_link_def good_link_def send_fails_def)
  have ready: "ready_before ready_modem always_failing i" for i
    by (rule ready_before_initialized) (simp add: ready_modem_def)
  have fresh: "ready_before fresh_modem always_failing (Suc i)" for i
    by (induction i)
       (simp_all add: fresh_modem_def always_failing_def failing_link_def good_link_def
          init_succeeds_def)
  have fresh3: "ready_before fresh_modem always_failing 3"
    using fresh [of 2] by (simp add: eval_nat_numeral)
  have dead: "\<not> ready_before fresh_modem always_dead i" for i
    by (induction i)
       (simp_all add: fresh_modem_def always_dead_def dead_link_def good_link_def init_succeeds_def)
  have d: "\<forall>i<3. \<not> confirms_at fresh_modem always_dead i"
    using dead by (simp add: confirms_at_def del: ready_before.simps)
  have rd: "\<forall>i<3. \<not> confirms_at ready_modem always_dead i"
    by (simp add: confirms_at_def always_dead_def dead_link_def good_link_def link_confirms_def)
  have ready_dead: "ready_before ready_modem always_dead i" for i
    by (rule ready_before_initialized) (simp add: ready_modem_def)
  have c1: "confirms_at fresh_modem fail_then_good 1"
    by (simp add: confirms_at_def fresh_modem_def fail_then_good_def failing_link_def good_link_def
          init_succeeds_def link_confirms_def)
  have c0: "\<forall>j<1. \<not> confirms_at fresh_modem fail_then_good j"
    by (simp add: confirms_at_def fail_then_good_def failing_link_def good_link_def link_confirms_def)
  have one: "(1::nat) < 3" by simp
  from send_message_retry_exhaustion [of ready_modem short_message always_failing "''t''" good_link]
    ne f
  have a: "fst (send_message ready_modem short_message MAX_RETRY_ATTEMPTS always_failing)
        = (False, 3, if ready_before ready_modem always_failing 3
                     then ''RockBlock reported send failure'' else ''Failed to initialize RockBlock'')
      \<and> sends (snd (snd (send_message ready_modem short_message MAX_RETRY_ATTEMPTS always_failing)))
        = length (filter (\<lambda>i. ready_before ready_modem always_failing (Suc i)) [0, 1, 2])"
    by blast
  have nc: "\<forall>i<3. \<not> confirms_at fresh_modem always_failing i"
    by (simp add: confirms_at_def always_failing_def failing_link_def good_link_def link_confirms_def)
  from send_message_retry_exhaustion [of fresh_modem short_message always_failing "''t''" good_link]
    ne f nc
  have b: "fst (send_message fresh_modem short_message MAX_RETRY_ATTEMPTS always_failing)
        = (False, 3, if ready_before fresh_modem always_failing 3
                     then ''RockBlock reported send failure'' else ''Failed to initialize RockBlock'')
      \<and> sends (snd (snd (send_message fresh_modem short_message MAX_RETRY_ATTEMPTS always_failing)))
        = length (filter (\<lambda>i. ready_before fresh_modem always_failing (Suc i)) [0, 1, 2])
      \<and> fst (send_data_reading fresh_modem (Formatted ''t'' short_message) always_failing good_link)
        = \<lparr> tx_success = False, tx_attempts = 3, tx_error = error_at fresh_modem always_failing 2,
            tx_message = short_message, tx_timestamp = ''t'',
            tx_signal_quality = final_quality (ready_before fresh_modem always_failing 3) good_link \<rparr>"
    by blast
  from send_message_retry_exhaustion [of fresh_modem short_message always_dead "''t''" dead_link]
    ne d
  have c: "fst (send_data_reading fresh_modem (Formatted ''t'' short_message) always_dead dead_link)
        = \<lparr> tx_success = False, tx_attempts = 3, tx_error = error_at fresh_modem always_dead 2,
            tx_message = short_message, tx_timestamp = ''t'',
            tx_signal_quality = final_quality (ready_before fresh_modem always_dead 3) dead_link \<rparr>"
    by blast
  from send_message_retry_exhaustion [of ready_modem short_message always_dead "''t''" dead_link]
    ne rd
  have e: "fst (send_message ready_modem short_message MAX_RETRY_ATTEMPTS always_dead)
        = (False, 3, error_at ready_modem always_dead 2)"
    by blast
  from send_message_retry_exhaustion [of fresh_modem short_message fail_then_good "''t''" good_link]
    ne c1 c0 one
  have g: "fst (send_message fresh_modem short_message MAX_RETRY_ATTEMPTS fail_then_good)
        = (True, int 1 + 1, '''')"
    by blast
  have err_f: "error_at fresh_modem always_failing 2 = ''RockBlock reported send failure''"
    using fresh [of 2]
    by (simp add: error_at_def attempt_error_def always_failing_def failing_link_def good_link_def
          del: ready_before.simps)
  have q_f: "final_quality (ready_before fresh_modem always_failing 3) good_link = Some 3"
    using fresh3 by (simp add: final_quality_def good_link_def)
  have err_d: "error_at fresh_modem always_dead 2 = ''Failed to initialize RockBlock''"
    using dead [of "Suc 2"] by (simp add: error_at_def del: ready_before.simps)
  have q_d: "final_quality (ready_before fresh_modem always_dead 3) dead_link = Some (- 1)"
    using dead [of 3] by (simp add: final_quality_def dead_link_def good_link_def init_succeeds_def)
  have err_r: "error_at ready_modem always_dead 2 = ''Exception during send: '' @ none_lt_text dead_link"
    using ready_dead [of "Suc 2"]
    by (simp add: error_at_def attempt_error_def always_dead_def dead_link_def good_link_def
          del: ready_before.simps)
  have s1: "send_fails (always_failing 0) \<and> send_fails (always_failing 1) \<and> send_fails (always_failing 2)"
    using f by simp
  have d1: "\<not> confirms_at fresh_modem always_dead 0 \<and> \<not> confirms_at fresh_modem always_dead 1
      \<and> \<not> confirms_at fresh_modem always_dead 2" using d by simp
  have rd1: "\<not> confirms_at ready_modem always_dead 0 \<and> \<not> confirms_at ready_modem always_dead 1
      \<and> \<not> confirms_at ready_modem always_dead 2" using rd by simp
  have c01: "\<not> confirms_at fresh_modem fail_then_good 0" using c0 by simp
  have la: "length (filter (\<lambda>i. ready_before ready_modem always_failing (Suc i)) [0, 1, 2]) = 3"
    using ready by (simp del: ready_before.simps)
  have lb: "length (filter (\<lambda>i. ready_before fresh_modem always_failing (Suc i)) [0, 1, 2]) = 3"
    using fresh by (simp del: ready_before.simps)
  show ?thesis
    using ne s1 a b c e g ready [of 3] fresh3 err_f q_f err_d q_d err_r d1 rd1 c1 c01 la lb
    by simp
qed

lemma all_fail_trace:
  assumes "is_initialized self" and "\<forall>i<3. send_fails (env i)" and "message \<noteq> []"
  shows "send_message self message MAX_RETRY_ATTEMPTS env =
     ((False, 3, ''RockBlock reported send failure''), self,
      [AttemptNotice 1, SignalQuery, TextMessage (truncate_message message) SendFail,
       BackoffNotice 5, Sleeps 300,
       AttemptNotice 2, SignalQuery, TextMessage (truncate_message message) SendFail,
       BackoffNotice 15, Sleeps 900,
       AttemptNotice 3, SignalQuery, TextMessage (truncate_message message) SendFail])"
proof -
  have f: "send_fails (env 0)" "send_fails (env 1)" "send_fails (env 2)" using assms(2) by simp_all
  show ?thesis
    using assms(1,3) f
    by (simp add: send_message_def three_attempts attempt_body_send_fails)
       (simp add: backoff_def backoff_minutes_def RETRY_BACKOFF_MINUTES_def MAX_RETRY_ATTEMPTS_def)
qed

text \<open>
  Claim C5, as the code has it. For a message that is not empty and a modem in any
  state, the run is the attempts one after the other, up to the first confirmed send
  or the last attempt, each attempt followed directly, before the next one starts, by
  its wait: after an attempt in which the link reported a send failure or an exception
  was raised, the backoff from the schedule of 5, 15 and 30 minutes taken at the
  attempt number and held at the last entry, unless the attempt is the last of the run,
  which nothing follows; after an attempt that found the signal poor, thirty seconds
  and no backoff, also after the last attempt. An attempt whose initialisation of the
  link failed is followed by no wait at all.
\<close>

theorem waits_follow_attempts:
  "(message \<noteq> [] \<longrightarrow> k \<le> nat max_attempts \<longrightarrow>
      (\<forall>i<k. \<not> confirms_at self env i) \<longrightarrow> (k = nat max_attempts \<or> confirms_at self env k) \<longrightarrow>
      snd (snd (send_message self message max_attempts env))
        = concat (map (attempt_events self (truncate_message message) max_attempts env)
                    [0..<min (Suc k) (nat max_attempts)]))
   \<and> schedule_minutes i = RETRY_BACKOFF_MINUTES ! min i (length RETRY_BACKOFF_MINUTES - 1)"
proof -
  have trace: "snd (snd (send_message self message max_attempts env))
        = concat (map (attempt_events self (truncate_message message) max_attempts env)
                    [0..<min (Suc k) (nat max_attempts)])"
    if ne: "message \<noteq> []" and k: "k \<le> nat max_attempts"
      and before: "\<forall>i<k. \<not> confirms_at self env i"
      and stop: "k = nat max_attempts \<or> confirms_at self env k"
  proof (cases "k = nat max_attempts")
    case True
    then have all: "\<forall>i<nat max_attempts. \<not> confirms_at self env i" using before by simp
    from send_message_unconfirmed [OF ne all] show ?thesis using True by auto
  next
    case False
    then have c: "confirms_at self env k" and lt: "k < nat max_attempts" using stop k by auto
    from send_message_confirmed [OF ne lt before c] show ?thesis using lt by (auto simp: min_def)
  qed
  have schedule: "schedule_minutes i = RETRY_BACKOFF_MINUTES ! min i (length RETRY_BACKOFF_MINUTES - 1)"
    using backoff_minutes_schedule [of i] by (simp add: backoff_minutes_def)
  from trace schedule show ?thesis by blast
qed

theorem waits_follow_attempts_witness:
  "short_message \<noteq> [] \<and> (5::nat) \<le> nat 5
   \<and> \<not> confirms_at ready_modem always_failing 0 \<and> \<not> confirms_at ready_modem always_failing 1
   \<and> \<not> confirms_at ready_modem always_failing 2 \<and> \<not> confirms_at ready_modem always_failing 3
   \<and> \<not> confirms_at ready_modem always_failing 4
   \<and> snd (snd (send_message ready_modem short_message 5 always_failing))
       = [AttemptNotice 1, SignalQuery, TextMessage short_message SendFail,
          BackoffNotice 5, Sleeps 300,
          AttemptNotice 2, SignalQuery, TextMessage short_message SendFail,
          BackoffNotice 15, Sleeps 900,
          AttemptNotice 3, SignalQuery, TextMessage short_message SendFail,
          BackoffNotice 30, Sleeps 1800,
          AttemptNotice 4, SignalQuery, TextMessage short_message SendFail,
          BackoffNotice 30, Sleeps 1800,
          AttemptNotice 5, SignalQuery, TextMessage short_message SendFail]
   \<and> (1::nat) \<le> nat MAX_RETRY_ATTEMPTS
   \<and> \<not> confirms_at fresh_modem fail_then_good 0 \<and> confirms_at fresh_modem fail_then_good 1
   \<and> snd (snd (send_message fresh_modem short_message MAX_RETRY_ATTEMPTS fail_then_good))
       = [AttemptNotice 1, Sleeps 1, Sleeps 2, NewRockBlock, SignalQuery, SignalQuery,
          TextMessage short_message SendFail, BackoffNotice 5, Sleeps 300,
          AttemptNotice 2, SignalQuery, TextMessage short_message SendOk]
   \<and> RETRY_BACKOFF_MINUTES ! min 7 (length RETRY_BACKOFF_MINUTES - 1) = 30"
proof -
  have ne: "short_message \<noteq> []" by (simp add: short_message_def)
  have tr: "truncate_message short_message = short_message"
    by (simp add: truncate_message_def encoded_length_def utf8_width_def short_message_def)
  have ready: "ready_before ready_modem always_failing i" for i
    by (rule ready_before_initialized) (simp add: ready_modem_def)
  have nc: "\<forall>i<5. \<not> confirms_at ready_modem always_failing i"
    by (simp add: confirms_at_def always_failing_def failing_link_def good_link_def link_confirms_def)
  have five: "(5::nat) \<le> nat 5" by simp
  have stop: "(5::nat) = nat 5 \<or> confirms_at ready_modem always_failing 5" by simp
  from waits_follow_attempts [of short_message 5 5 ready_modem always_failing 7] ne five nc stop
  have a: "snd (snd (send_message ready_modem short_message 5 always_failing))
        = concat (map (attempt_events ready_modem (truncate_message short_message) 5 always_failing)
                    [0..<min (Suc 5) (nat 5)])"
    and s: "schedule_minutes 7 = RETRY_BACKOFF_MINUTES ! min 7 (length RETRY_BACKOFF_MINUTES - 1)"
    by blast+
  have ev: "attempt_events ready_modem short_message 5 always_failing i
      = AttemptNotice (i + 1) # SignalQuery # TextMessage short_message SendFail #
          (if i < 4 then [BackoffNotice (schedule_minutes i), Sleeps (schedule_minutes i * 60)] else [])"
    for i
    using ready [of i] ready [of "Suc i"]
    by (auto simp: attempt_events_def attempt_work_def wait_after_def always_failing_def
          failing_link_def good_link_def link_confirms_def poor_signal_def
          simp del: ready_before.simps)
  have a': "snd (snd (send_message ready_modem short_message 5 always_failing))
       = [AttemptNotice 1, SignalQuery, TextMessage short_message SendFail,
          BackoffNotice 5, Sleeps 300,
          AttemptNotice 2, SignalQuery, TextMessage short_message SendFail,
          BackoffNotice 15, Sleeps 900,
          AttemptNotice 3, SignalQuery, TextMessage short_message SendFail,
          BackoffNotice 30, Sleeps 1800,
          AttemptNotice 4, SignalQuery, TextMessage short_message SendFail,
          BackoffNotice 30, Sleeps 1800,
          AttemptNotice 5, SignalQuery, TextMessage short_message SendFail]"
    unfolding a tr by (simp add: upt_rec ev schedule_minutes_def)
  have c0: "\<forall>i<1. \<not> confirms_at fresh_modem fail_then_good i"
    by (simp add: confirms_at_def fail_then_good_def failing_link_def good_link_def link_confirms_def)
  have c1: "confirms_at fresh_modem fail_then_good 1"
    by (simp add: confirms_at_def fresh_modem_def fail_then_good_def failing_link_def good_link_def
          init_succeeds_def link_confirms_def)
  have one: "(1::nat) \<le> nat MAX_RETRY_ATTEMPTS" by (simp add: MAX_RETRY_ATTEMPTS_def)
  have stop1: "(1::nat) = nat MAX_RETRY_ATTEMPTS \<or> confirms_at fresh_modem fail_then_good 1"
    using c1 by simp
  from waits_follow_attempts [of short_message 1 MAX_RETRY_ATTEMPTS fresh_modem fail_then_good 7]
    ne one c0 stop1
  have b: "snd (snd (send_message fresh_modem short_message MAX_RETRY_ATTEMPTS fail_then_good))
        = concat (map (attempt_events fresh_modem (truncate_message short_message)
                         MAX_RETRY_ATTEMPTS fail_then_good)
                    [0..<min (Suc 1) (nat MAX_RETRY_ATTEMPTS)])"
    by blast
  have b': "snd (snd (send_message fresh_modem short_message MAX_RETRY_ATTEMPTS fail_then_good))
       = [AttemptNotice 1, Sleeps 1, Sleeps 2, NewRockBlock, SignalQuery, SignalQuery,
          TextMessage short_message SendFail, BackoffNotice 5, Sleeps 300,
          AttemptNotice 2, SignalQuery, TextMessage short_message SendOk]"
    unfolding b tr
    by (simp add: upt_rec MAX_RETRY_ATTEMPTS_def attempt_events_def attempt_work_def wait_after_def
          init_events_def init_succeeds_def fresh_modem_def fail_then_good_def failing_link_def
          good_link_def link_confirms_def poor_signal_def schedule_minutes_def)
  have s': "RETRY_BACKOFF_MINUTES ! min 7 (length RETRY_BACKOFF_MINUTES - 1) = 30"
    using s by (simp add: schedule_minutes_def)
  have n: "\<not> confirms_at ready_modem always_failing 0 \<and> \<not> confirms_at ready_modem always_failing 1
   \<and> \<not> confirms_at ready_modem always_failing 2 \<and> \<not> confirms_at ready_modem always_failing 3
   \<and> \<not> confirms_at ready_modem always_failing 4" using nc by simp
  have c00: "\<not> confirms_at fresh_modem fail_then_good 0" using c0 by simp
  from ne five n a' one c00 c1 b' s' show ?thesis by simp
qed

text \<open>
  Claim C5 as stated fails. An attempt that finds the signal poor is followed by thirty
  seconds only and then by the next attempt, where the schedule asks for 300 seconds;
  and when the link cannot be initialised the three attempts follow each other with no
  wait but the three seconds of each initialisation.
\<close>

theorem backoff_skipped_after_poor_signal:
  "snd (snd (send_message ready_modem short_message MAX_RETRY_ATTEMPTS weak_then_good))
     = [AttemptNotice 1, SignalQuery, Sleeps 30,
        AttemptNotice 2, SignalQuery, TextMessage short_message SendOk]
   \<and> snd (snd (send_message fresh_modem short_message MAX_RETRY_ATTEMPTS always_dead))
     = [AttemptNotice 1, Sleeps 1, Sleeps 2, NewRockBlock,
        AttemptNotice 2, Sleeps 1, Sleeps 2, NewRockBlock,
        AttemptNotice 3, Sleeps 1, Sleeps 2, NewRockBlock]
   \<and> backoff_minutes 0 * 60 = 300"
  by (simp add: send_message_def three_attempts short_message_def truncate_message_def
        encoded_length_def utf8_width_def attempt_body_def after_init_def get_signal_quality_def
        read_signal_def initialize_def test_communication_def ready_modem_def fresh_modem_def
        weak_then_good_def weak_link_def good_link_def always_dead_def dead_link_def
        backoff_minutes_def RETRY_BACKOFF_MINUTES_def Let_def)

text \<open>
  Claim C6, as the code has it. The attempt loop takes no account of the wake time.
  When every send of an initialised modem fails, then whatever the clock reading \<open>now\<close>
  at which the loop is entered after the start of the wake cycle, both backoff waits
  are slept in full, 300 seconds from \<open>now\<close> and 900 seconds from \<open>now + 300\<close>, the
  second one starting when the wake budget of 300 seconds is already exceeded, and the
  result is the send failure after three attempts, not a failure for lack of time.
\<close>

theorem attempt_loop_ignores_wake_budget:
  "message \<noteq> [] \<longrightarrow> is_initialized self \<longrightarrow> (\<forall>i<3. send_fails (env i)) \<longrightarrow> boot < now \<longrightarrow>
     fst (send_message self message MAX_RETRY_ATTEMPTS env) = (False, 3, ''RockBlock reported send failure'')
     \<and> sleep_starts now (snd (snd (send_message self message MAX_RETRY_ATTEMPTS env)))
          = [(now, 300), (now + 300, 900)]
     \<and> should_force_sleep (new_power_manager monitor boot) (now + 300)"
proof (intro impI)
  assume ne: "message \<noteq> []" and init: "is_initialized self"
    and fail: "\<forall>i<3. send_fails (env i)" and late: "boot < now"
  note t = all_fail_trace [OF init fail ne]
  show "fst (send_message self message MAX_RETRY_ATTEMPTS env) = (False, 3, ''RockBlock reported send failure'')
     \<and> sleep_starts now (snd (snd (send_message self message MAX_RETRY_ATTEMPTS env)))
          = [(now, 300), (now + 300, 900)]
     \<and> should_force_sleep (new_power_manager monitor boot) (now + 300)"
    using late unfolding t
    by (simp add: should_force_sleep_def get_wake_duration_def new_power_manager_def)
qed

theorem attempt_loop_ignores_wake_budget_witness:
  "short_message \<noteq> [] \<and> is_initialized ready_modem
   \<and> send_fails (always_failing 0) \<and> send_fails (always_failing 1) \<and> send_fails (always_failing 2)
   \<and> (1::real) < 4
   \<and> sleep_starts 4 (snd (snd (send_message ready_modem short_message MAX_RETRY_ATTEMPTS always_failing)))
        = [(4, 300), (304, 900)]
   \<and> should_force_sleep (new_power_manager True 1) 304"
  using attempt_loop_ignores_wake_budget [of short_message ready_modem always_failing 1 4 True]
  by (simp add: short_message_def ready_modem_def always_failing_def failing_link_def send_fails_def)

text \<open>
  Claim C6 as stated fails. The cycle starts at clock reading 0 and the loop is entered
  at 3; every send fails. The second backoff starts at 303, when \<open>should_force_sleep\<close>
  holds, and the loop sleeps its 900 seconds and reports the send failure.
\<close>

theorem backoff_past_wake_budget:
  "sleep_starts 3 (snd (snd (send_message ready_modem short_message MAX_RETRY_ATTEMPTS always_failing)))
      = [(3, 300), (303, 900)]
   \<and> should_force_sleep (new_power_manager True 0) 303
   \<and> fst (send_message ready_modem short_message MAX_RETRY_ATTEMPTS always_failing)
      = (False, 3, ''RockBlock reported send failure'')"
proof -
  have "send_message ready_modem short_message MAX_RETRY_ATTEMPTS always_failing =
     ((False, 3, ''RockBlock reported send failure''), ready_modem,
      [AttemptNotice 1, SignalQuery, TextMessage (truncate_message short_message) SendFail,
       BackoffNotice 5, Sleeps 300,
       AttemptNotice 2, SignalQuery, TextMessage (truncate_message short_message) SendFail,
       BackoffNotice 15, Sleeps 900,
       AttemptNotice 3, SignalQuery, TextMessage (truncate_message short_message) SendFail])"
    by (rule all_fail_trace)
       (simp_all add: ready_modem_def always_failing_def failing_link_def send_fails_def short_message_def)
  then show ?thesis
    by (simp add: should_force_sleep_def get_wake_duration_def new_power_manager_def)
qed

lemma encoded_length_replicate: "encoded_length (replicate n c) = n * utf8_width c"
  by (induction n) (simp_all add: encoded_length_def)

lemma encoded_length_append: "encoded_length (xs @ ys) = encoded_length xs + encoded_length ys"
  by (simp add: encoded_length_def)

text \<open>
  For a message of ASCII characters the bytes and the code points agree and the
  message handed to the link has exactly 340 bytes; an empty message is rejected
  before any attempt.
\<close>

lemma ascii_length: "\<forall>c\<in>set m. c < 128 \<Longrightarrow> encoded_length m = length m"
  by (induction m) (simp_all add: encoded_length_def utf8_width_def)

lemma ascii_truncation:
  assumes "\<forall>c\<in>set m. c < 128" and "340 < encoded_length m"
  shows "truncate_message m = take 337 m @ marker \<and> encoded_length (truncate_message m) = 340"
proof -
  have l: "340 < length m" using assms ascii_length by simp
  have t: "\<forall>c\<in>set (take 337 m). c < 128" using assms(1) by (meson in_set_takeD)
  have "encoded_length (take 337 m) = 337" using ascii_length [OF t] l by simp
  then show ?thesis using assms(2)
    by (simp add: truncate_message_def encoded_length_append)
       (simp add: encoded_length_def marker_def utf8_width_def)
qed

lemma empty_message_rejected:
  "send_message self [] max_attempts env = ((False, 0, ''Empty message''), self, [])"
  by (simp add: send_message_def)

text \<open>
  Claim C10, at an input where the code departs from it. A message of 200 times the
  letter U+00E9 has 400 bytes in UTF-8, more than 340; the slice keeps 337 code points,
  which is the whole message, and the marker is added, so the message handed to the
  link has 403 bytes where the claim promises at most 340.
\<close>

theorem accented_message_exceeds_limit:
  "encoded_length accented_message = 400
   \<and> snd (snd (send_message ready_modem accented_message MAX_RETRY_ATTEMPTS always_good))
       = [AttemptNotice 1, SignalQuery, TextMessage (accented_message @ marker) SendOk]
   \<and> encoded_length (accented_message @ marker) = 403"
proof -
  have len: "encoded_length accented_message = 400"
    by (simp add: accented_message_def encoded_length_replicate utf8_width_def)
  have ne: "accented_message \<noteq> []" by (simp add: accented_message_def)
  have tr: "truncate_message accented_message = accented_message @ marker"
    using len by (simp add: truncate_message_def accented_message_def)
  have c: "link_confirms (always_good 0)"
    by (simp add: always_good_def good_link_def link_confirms_def)
  have i: "is_initialized ready_modem" by (simp add: ready_modem_def)
  have run: "snd (snd (send_message ready_modem accented_message MAX_RETRY_ATTEMPTS always_good))
       = [AttemptNotice 1, SignalQuery, TextMessage (accented_message @ marker) SendOk]"
    using ne by (simp add: send_message_def three_attempts tr attempt_body_confirms [OF i c])
  have m: "encoded_length (accented_message @ marker) = 403"
    using len by (simp add: encoded_length_append) (simp add: encoded_length_def marker_def utf8_width_def)
  from len run m show ?thesis by simp
qed

section \<open>The wake cycle\<close>

lemma done_signals_append [simp]: "done_signals (xs @ ys) = done_signals xs + done_signals ys"
  by (simp add: done_signals_def)

lemma done_signals_Cons [simp]: "done_signals (e # es) = (if is_done e then 1 else 0) + done_signals es"
  by (simp add: done_signals_def)

lemma done_signals_Nil [simp]: "done_signals [] = 0"
  by (simp add: done_signals_def)

lemma done_signals_link [simp]: "done_signals (map Link evs) = 0"
  by (induction evs) simp_all

lemma done_perform_transmission: "done_signals (snd (perform_transmission env)) = 0"
  by (simp add: perform_transmission_def split: prod.splits bool.splits)

lemma done_save_and_report [simp]: "done_signals (save_and_report env state) = 0"
  by (simp add: save_and_report_def print_system_diagnostics_def)

lemma done_transmit_or_log: "done_signals (snd (transmit_or_log env status state)) = 0"
  using done_perform_transmission [of env]
  by (auto simp: transmit_or_log_def Let_def split: prod.splits bool.splits option.splits)

lemma done_transmit_or_log_events:
  "transmit_or_log env status state = (fl, evs) \<Longrightarrow> done_signals evs = 0"
  using done_transmit_or_log [of env status state] by simp

lemma done_load_and_init: "done_signals (snd (load_and_init env status)) = 0"
  by (auto simp: load_and_init_def Let_def split: prod.splits dest: done_transmit_or_log_events)

lemma done_load_and_init_events:
  "load_and_init env status = (fl, evs) \<Longrightarrow> done_signals evs = 0"
  using done_load_and_init [of env status] by simp

lemma cycle_body_without_power_manager:
  "raises env AtStartupBlink \<or> raises env AtPowerInit \<Longrightarrow>
     fst (cycle_body env) = Raised \<and> \<not> fst (snd (cycle_body env))
     \<and> done_signals (snd (snd (snd (cycle_body env)))) = 0"
  by (auto simp: cycle_body_def)

lemma cycle_body_with_power_manager:
  assumes "\<not> raises env AtStartupBlink" and "\<not> raises env AtPowerInit"
  shows "fst (snd (cycle_body env))
     \<and> done_signals (snd (snd (snd (cycle_body env)))) = (if emergency env then 1 else 0)
     \<and> (emergency env \<longrightarrow> fst (cycle_body env) = Returned)"
  using assms
  by (auto simp: cycle_body_def emergency_def handle_emergency_shutdown_def signal_done_def
        split: prod.splits dest: done_load_and_init_events)

lemma done_error_handler [simp]: "done_signals (error_handler env ready) = 0"
  by (simp add: error_handler_def)

lemma done_finally_block:
  "done_signals (finally_block env has_power_mgr) =
     (if has_power_mgr \<and> \<not> raises env AtFinalBlink then 1 else 0)"
  by (simp add: finally_block_def signal_done_def)

lemma done_main:
  "done_signals (main env) =
     (if raises env AtStartupBlink \<or> raises env AtPowerInit then 0
      else (if emergency env then 1 else 0) + (if raises env AtFinalBlink then 0 else 1))"
proof (cases "raises env AtStartupBlink \<or> raises env AtPowerInit")
  case True
  from cycle_body_without_power_manager [OF True] show ?thesis
    using True by (auto simp: main_def done_finally_block split: prod.splits)
next
  case False
  then have a: "\<not> raises env AtStartupBlink" and b: "\<not> raises env AtPowerInit" by auto
  from cycle_body_with_power_manager [OF a b] show ?thesis
    using False by (auto simp: main_def done_finally_block split: prod.splits)
qed

lemma done_until_power_cut: "done_signals (until_power_cut evs) = min 1 (done_signals evs)"
  by (induction evs) auto

text \<open>
  The reading of the battery. With a monitor, the count \<open>raw\<close> reads as
  \<open>raw \<times> 6.6 / 65535\<close> volts, which is never exactly 3.0 V: the counts up to 29788
  read below 3.0 V and lead to the emergency shutdown, the counts from 29789 to 31774
  read between 3.0 V and 3.2 V and lead to conserving power, and every higher count is
  normal. Without a monitor, or when the read raises, the reading is 0.0 V, the
  low-battery flag keeps its value and a fresh power manager reports the battery as
  normal.
\<close>

lemma reading_of_count:
  "battery_monitor self \<Longrightarrow>
     fst (read_battery_voltage self (Count raw)) = real raw * 6.6 / 65535"
  by (simp add: read_battery_voltage_def PRESSURE_SENSOR_VREF_def Let_def)

lemma count_below_three_volts: "(real raw * 6.6 / 65535 < 3) = (raw \<le> 29788)"
proof -
  have "(real raw * 6.6 / 65535 < 3) = (real raw * 66 < 1966050)" by (simp add: field_simps)
  also have "\<dots> = (real (raw * 66) < real 1966050)" by simp
  also have "\<dots> = (raw * 66 < 1966050)" by (simp only: of_nat_less_iff)
  also have "\<dots> = (raw \<le> 29788)" by arith
  finally show ?thesis .
qed

lemma count_below_threshold: "(real raw * 6.6 / 65535 < 3.2) = (raw \<le> 31774)"
proof -
  have "(real raw * 6.6 / 65535 < 3.2) = (real raw * 66 < 2097120)" by (simp add: field_simps)
  also have "\<dots> = (real (raw * 66) < real 2097120)" by simp
  also have "\<dots> = (raw * 66 < 2097120)" by (simp only: of_nat_less_iff)
  also have "\<dots> = (raw \<le> 31774)" by arith
  finally show ?thesis .
qed

lemma no_count_reads_three_volts:
  "battery_monitor self \<Longrightarrow> fst (read_battery_voltage self (Count raw)) \<noteq> 3"
proof -
  assume m: "battery_monitor self"
  have "real raw * 6.6 / 65535 \<noteq> 3"
  proof
    assume "real raw * 6.6 / 65535 = 3"
    then have "real raw * 66 = 1966050" by (simp add: field_simps)
    then have "real (raw * 66) = real 1966050" by simp
    then have "raw * 66 = 1966050" by (simp only: of_nat_eq_iff)
    then show False by arith
  qed
  then show ?thesis using m by (simp add: reading_of_count)
qed

lemma recommendation_by_count:
  assumes "battery_monitor self"
  shows "recommendation (fst (check_battery_status self (Count raw))) =
     (if raw \<le> 29788 then emergency_shutdown
      else if raw \<le> 31774 then conserve_power else normal)"
proof -
  have v: "read_battery_voltage self (Count raw) =
      (real raw * 6.6 / 65535,
       self \<lparr> battery_voltage := real raw * 6.6 / 65535,
              is_low_battery := real raw * 6.6 / 65535 < 3.2 \<rparr>)"
    using assms
    by (simp add: read_battery_voltage_def PRESSURE_SENSOR_VREF_def LOW_BATTERY_THRESHOLD_def Let_def)
  have "raw \<le> 29788 \<Longrightarrow> raw \<le> 31774" by simp
  then show ?thesis
    using count_below_three_volts [of raw] count_below_threshold [of raw]
    by (auto simp: check_battery_status_def v)
qed

text \<open>
  Every count reads more than 0.00003 V away from both thresholds, so the comparisons
  of the source, made on floating-point numbers, do not depend on the rounding.
\<close>

lemma reading_clear_of_thresholds:
  assumes "battery_monitor self"
  shows "0.00003 < \<bar>fst (read_battery_voltage self (Count raw)) - 3\<bar>
       \<and> 0.00003 < \<bar>fst (read_battery_voltage self (Count raw)) - 3.2\<bar>"
proof -
  let ?v = "real raw * 6.6 / 65535"
  have three: "0.00003 < \<bar>?v - 3\<bar>"
  proof (cases "raw \<le> 29788")
    case True
    then have "real raw \<le> 29788" by simp
    then have "?v \<le> 29788 * 6.6 / 65535" by (simp add: field_simps)
    then show ?thesis by simp
  next
    case False
    then have "29789 \<le> raw" by simp
    then have "29789 \<le> real raw" by simp
    then have "29789 * 6.6 / 65535 \<le> ?v" by (simp add: field_simps)
    then show ?thesis by simp
  qed
  have low: "0.00003 < \<bar>?v - 3.2\<bar>"
  proof (cases "raw \<le> 31774")
    case True
    then have "real raw \<le> 31774" by simp
    then have "?v \<le> 31774 * 6.6 / 65535" by (simp add: field_simps)
    then show ?thesis by simp
  next
    case False
    then have "31775 \<le> raw" by simp
    then have "31775 \<le> real raw" by simp
    then have "31775 * 6.6 / 65535 \<le> ?v" by (simp add: field_simps)
    then show ?thesis by simp
  qed
  from three low show ?thesis using assms by (simp only: reading_of_count) 
qed

lemma reading_without_monitor:
  "check_battery_status (new_power_manager False now) rd
     = (\<lparr> voltage = 0, is_low = False, recommendation = normal \<rparr>, new_power_manager False now)
   \<and> check_battery_status (new_power_manager True now) ReadRaises
     = (\<lparr> voltage = 0, is_low = False, recommendation = normal \<rparr>, new_power_manager True now)"
  by (simp add: check_battery_status_def read_battery_voltage_def new_power_manager_def)

lemma emergency_trace:
  assumes "emergency env" and "\<not> raises env AtStartupBlink" and "\<not> raises env AtPowerInit"
  shows "main env = [Blink 3, PowerManagerInit, BatteryRead, DoneSignal] @ finally_block env True"
  using assms
  by (auto simp: main_def cycle_body_def emergency_def handle_emergency_shutdown_def signal_done_def
        split: prod.splits)

lemma sensor_free_finally [simp]: "filter is_sensor_or_link (finally_block env b) = []"
  by (simp add: finally_block_def signal_done_def)

lemma sensor_free_until_power_cut:
  "filter is_sensor_or_link evs = [] \<Longrightarrow> filter is_sensor_or_link (until_power_cut evs) = []"
  by (induction evs) (auto split: if_splits)

text \<open>
  Claim C1, as the code has it. The number of pulses of a cycle that runs to its end
  is: none when the start-up blink or the making of the power manager raises (the
  power manager is then missing and the final step has nothing to pulse with);
  otherwise one from the final step, unless the final blink raises, and one more from
  the emergency handler on the emergency path. So when the power manager exists and
  the final blink does not raise, the final step pulses exactly once, on every path
  and also when the body raised; the cycle pulses at least once; it pulses exactly
  once when the emergency path is not taken or when the external timer cuts the power
  at the first pulse, and twice on the emergency path when the timer leaves the power
  on.
\<close>

theorem done_signal_count:
  "done_signals (main env) =
     (if raises env AtStartupBlink \<or> raises env AtPowerInit then 0
      else (if emergency env then 1 else 0) + (if raises env AtFinalBlink then 0 else 1))
   \<and> (\<not> raises env AtStartupBlink \<longrightarrow> \<not> raises env AtPowerInit \<longrightarrow> \<not> raises env AtFinalBlink \<longrightarrow>
        done_signals (finally_block env True) = 1
        \<and> 1 \<le> done_signals (run_cycle env)
        \<and> (\<not> emergency env \<longrightarrow> done_signals (run_cycle env) = 1)
        \<and> (timer_cuts_power env \<longrightarrow> done_signals (run_cycle env) = 1)
        \<and> (emergency env \<longrightarrow> \<not> timer_cuts_power env \<longrightarrow> done_signals (run_cycle env) = 2))"
  by (simp add: done_main run_cycle_def done_until_power_cut done_finally_block)

theorem done_signal_count_witness:
  "\<not> raises sensor_fault_cycle AtStartupBlink \<and> \<not> raises sensor_fault_cycle AtPowerInit
   \<and> \<not> raises sensor_fault_cycle AtFinalBlink \<and> \<not> emergency sensor_fault_cycle
   \<and> fst (cycle_body sensor_fault_cycle) = Raised
   \<and> done_signals (run_cycle sensor_fault_cycle) = 1
   \<and> emergency cut_emergency_cycle \<and> timer_cuts_power cut_emergency_cycle
   \<and> done_signals (run_cycle cut_emergency_cycle) = 1
   \<and> emergency emergency_cycle \<and> \<not> timer_cuts_power emergency_cycle
   \<and> done_signals (run_cycle emergency_cycle) = 2"
  using done_signal_count [of sensor_fault_cycle] done_signal_count [of cut_emergency_cycle]
    done_signal_count [of emergency_cycle]
  by (simp add: emergency_def emergency_cycle_def cut_emergency_cycle_def sensor_fault_cycle_def
        quiet_cycle_def sensor_fault_def check_battery_status_def read_battery_voltage_def
        new_power_manager_def LOW_BATTERY_THRESHOLD_def PRESSURE_SENSOR_VREF_def Let_def
        cycle_body_def load_and_init_def)

text \<open>
  Claim C1 as stated fails. With a battery read at 2.9 V (the count 28795) the
  emergency handler pulses and
  the final step pulses again: two pulses. When the power manager cannot be made, no
  pulse is sent.
\<close>

theorem emergency_path_signals_twice:
  "done_signals (main emergency_cycle) = 2 \<and> done_signals (main no_power_manager_cycle) = 0"
  by (simp add: done_main emergency_def emergency_cycle_def no_power_manager_cycle_def
        quiet_cycle_def power_init_fault_def check_battery_status_def read_battery_voltage_def
        new_power_manager_def LOW_BATTERY_THRESHOLD_def PRESSURE_SENSOR_VREF_def Let_def)

text \<open>
  On the emergency path the cycle does no sensor and no transmission work and sends
  the power-down pulse.
\<close>

lemma emergency_cycle_skips_work:
  assumes "emergency env" and "\<not> raises env AtStartupBlink" and "\<not> raises env AtPowerInit"
  shows "filter is_sensor_or_link (run_cycle env) = [] \<and> 1 \<le> done_signals (run_cycle env)"
proof -
  have t: "main env = [Blink 3, PowerManagerInit, BatteryRead, DoneSignal] @ finally_block env True"
    by (rule emergency_trace [OF assms])
  have f: "filter is_sensor_or_link (main env) = []" unfolding t by simp
  have d: "1 \<le> done_signals (main env)" unfolding t by simp
  show ?thesis
    using f d by (simp add: run_cycle_def sensor_free_until_power_cut done_until_power_cut)
qed

text \<open>
  The two counts next to 3.0 V. The count 29788 reads just below 3.0 V and the cycle
  takes the emergency path; the count 29789 reads just above, the recommendation is to
  conserve power and the cycle goes on to set up and read the sensor.
\<close>

lemma counts_next_to_three_volts:
  "fst (read_battery_voltage (new_power_manager True 1) (Count 29788)) < 3
   \<and> 3 < fst (read_battery_voltage (new_power_manager True 1) (Count 29789))
   \<and> recommendation (fst (check_battery_status (new_power_manager True 1) (Count 29788)))
        = emergency_shutdown
   \<and> recommendation (fst (check_battery_status (new_power_manager True 1) (Count 29789)))
        = conserve_power
   \<and> filter is_sensor_or_link (main (quiet_cycle \<lparr> battery := Count 29789 \<rparr>))
        = [SensorInit, SensorRead, SensorRead]"
  by (simp add: check_battery_status_def read_battery_voltage_def new_power_manager_def
        LOW_BATTERY_THRESHOLD_def PRESSURE_SENSOR_VREF_def
        main_def cycle_body_def load_and_init_def transmit_or_log_def
        quiet_cycle_def is_transmission_time_def TRANSMISSION_TIMES_def
        get_pending_transmissions_def default_state_def slot_name_morning slot_name_afternoon
        should_skip_transmission_def save_and_report_def print_system_diagnostics_def
        finally_block_def signal_done_def error_handler_def Let_def)

end
